theory Spec2Isabelle
  imports
    Complex_Main
    "HOL-Library.Sublist"
    "HOL-Library.List_Lexorder"
    "HOL-Library.Product_Lexorder"
begin

section \<open>Context sizer (ocode.py, main, lines 402-405)\<close>

text \<open>
  Python integers are unbounded, so token counts and context sizes are \<^typ>\<open>int\<close>.
  The two module constants of ocode.py:
\<close>

definition MAX_CONTEXT_SIZE :: int where
  "MAX_CONTEXT_SIZE = 128000"

definition TOKEN_BUFFER :: int where
  "TOKEN_BUFFER = 1000"

text \<open>
  \<^verbatim>\<open>int.bit_length()\<close>: the number of binary digits of the absolute value, 0 for 0.
\<close>

fun bit_length_nat :: "nat \<Rightarrow> nat" where
  "bit_length_nat n = (if n = 0 then 0 else Suc (bit_length_nat (n div 2)))"

declare bit_length_nat.simps [simp del]

definition bit_length :: "int \<Rightarrow> nat" where
  "bit_length x = bit_length_nat (nat \<bar>x\<bar>)"

text \<open>
  The two assignments to \<^verbatim>\<open>dynamic_ctx_size\<close> in main:
  \<^verbatim>\<open>dynamic_ctx_size = min(MAX_CONTEXT_SIZE, token_count + TOKEN_BUFFER)\<close> and
  \<^verbatim>\<open>dynamic_ctx_size = max(4096, 2**int(dynamic_ctx_size - 1).bit_length())\<close>.
\<close>

definition context_size :: "int \<Rightarrow> int" where
  "context_size token_count =
     (let dynamic_ctx_size = min MAX_CONTEXT_SIZE (token_count + TOKEN_BUFFER)
      in max 4096 (2 ^ bit_length (dynamic_ctx_size - 1)))"

text \<open>
  The specification's wording, "rounded up to the next power of two": the least power of
  two that is not below the value, found by doubling from 1.
\<close>

function next_power_of_two_from :: "nat \<Rightarrow> nat \<Rightarrow> nat" where
  "next_power_of_two_from p x =
     (if p = 0 \<or> x \<le> p then p else next_power_of_two_from (2 * p) x)"
  by pat_completeness auto
termination
  by (relation "measure (\<lambda>(p, x). x - p)") auto

declare next_power_of_two_from.simps [simp del]

definition next_power_of_two :: "nat \<Rightarrow> nat" where
  "next_power_of_two x = next_power_of_two_from 1 x"

definition context_size_spec :: "int \<Rightarrow> int" where
  "context_size_spec estimate =
     max 4096 (int (next_power_of_two (nat (min MAX_CONTEXT_SIZE (estimate + TOKEN_BUFFER)))))"


section \<open>Token estimators (estimate-qwen-tokens of the context test, count-tokens of ocode.py)\<close>

text \<open>
  A Python \<open>str\<close> is a sequence of Unicode code points, and \<open>len\<close> counts code points. A
  string is modelled as the list of its code points (the value of \<open>ord\<close>), so that the
  range test of the CJK count can be written as the source has it.
\<close>

type_synonym str = "nat list"

definition py :: "string \<Rightarrow> str" where
  \<comment> \<open>a string literal of the source\<close>
  "py s = map of_char s"

text \<open>
  \<open>str.isspace\<close>, \<open>str.isdigit\<close> and \<open>str.isalnum\<close> read the Unicode character database of
  the interpreter, which is not part of the repository: the three character classes are a
  parameter of the model.
\<close>

record char_classes =
  isspace :: "nat \<Rightarrow> bool"
  isdigit :: "nat \<Rightarrow> bool"
  isalnum :: "nat \<Rightarrow> bool"

text \<open>
  \<open>text.split()\<close> with no argument: the maximal runs of characters that are not
  whitespace, in order; \<open>cur\<close> is the run being read.
\<close>

fun split_from :: "(nat \<Rightarrow> bool) \<Rightarrow> str \<Rightarrow> str \<Rightarrow> str list" where
  "split_from sp cur [] = (if cur = [] then [] else [cur])"
| "split_from sp cur (c # cs) =
     (if sp c then (if cur = [] then split_from sp [] cs else cur # split_from sp [] cs)
      else split_from sp (cur @ [c]) cs)"

definition split :: "char_classes \<Rightarrow> str \<Rightarrow> str list" where
  "split U text = split_from (isspace U) [] text"

text \<open>\<open>int(x)\<close> on a float: truncation towards zero.\<close>

definition py_int :: "real \<Rightarrow> int" where
  "py_int x = (if 0 \<le> x then \<lfloor>x\<rfloor> else \<lceil>x\<rceil>)"

text \<open>
  \<open>estimate_qwen_tokens\<close> of \<^verbatim>\<open>large_context_test.py\<close>. The source adds the four counts as
  floats; every intermediate value is a multiple of one half, which a double represents
  exactly below \<open>2 ^ 52\<close>, so for any text that fits in memory the float sum is the real
  sum written here.
\<close>

definition estimate_qwen_tokens :: "char_classes \<Rightarrow> str \<Rightarrow> int" where
  "estimate_qwen_tokens U text =
     (let words = length (split U text);
          cjk_chars = length (filter (\<lambda>char. char > 0x4E00 \<and> char < 0x9FFF) text);
          numeric_chars = length (filter (\<lambda>char. isdigit U char) text);
          special_chars = length (filter (\<lambda>char. \<not> (isalnum U char \<or> isspace U char)) text);
          estimated_tokens =
            real words + real cjk_chars + (real numeric_chars * 0.5) + (real special_chars * 0.5)
      in py_int estimated_tokens)"

text \<open>
  \<open>count_tokens\<close> of ocode.py. The tiktoken encoder is an external library: \<open>encode\<close> is
  its outcome on the text, the token list or \<open>None\<close> when \<open>encoding_for_model\<close> or
  \<open>encode\<close> raises, which sends the function to its \<open>len(text) // 4\<close> fallback.
\<close>

definition count_tokens :: "(str \<Rightarrow> 'tok list option) \<Rightarrow> str \<Rightarrow> int" where
  "count_tokens encode text =
     (case encode text of
        Some tokens \<Rightarrow> int (length tokens)
      | None \<Rightarrow> int (length text) div 4)"

text \<open>
  A tokenizer that always raises, so that \<open>count_tokens\<close> falls back to a quarter of the
  length.
\<close>

definition no_tokenizer :: "str \<Rightarrow> nat list option" where
  "no_tokenizer s = None"

text \<open>The character classes restricted to ASCII, for running the estimator on examples.\<close>

definition ascii_classes :: char_classes where
  "ascii_classes =
     \<lparr> isspace = (\<lambda>c. c \<in> {9, 10, 11, 12, 13, 28, 29, 30, 31, 32}),
       isdigit = (\<lambda>c. 48 \<le> c \<and> c \<le> 57),
       isalnum = (\<lambda>c. (48 \<le> c \<and> c \<le> 57) \<or> (65 \<le> c \<and> c \<le> 90) \<or> (97 \<le> c \<and> c \<le> 122)) \<rparr>"


section \<open>Content aggregator (ocode.py, lines 62-165)\<close>

subsection \<open>Strings and paths\<close>

text \<open>\<open>str.startswith\<close>, \<open>str.endswith\<close> and the substring test \<open>pattern in rel_path\<close>.\<close>

definition startswith :: "str \<Rightarrow> str \<Rightarrow> bool" where
  "startswith s p = prefix p s"

definition endswith :: "str \<Rightarrow> str \<Rightarrow> bool" where
  "endswith s p = suffix p s"

definition contains :: "str \<Rightarrow> str \<Rightarrow> bool" where
  \<comment> \<open>\<open>contains p s\<close> is the source's \<open>p in s\<close>\<close>
  "contains p s = sublist p s"

text \<open>\<open>sep.join(parts)\<close>.\<close>

fun join :: "str \<Rightarrow> str list \<Rightarrow> str" where
  "join sep [] = []"
| "join sep [x] = x"
| "join sep (x # y # ys) = x @ sep @ join sep (y # ys)"

text \<open>\<open>str(n)\<close> for an integer: decimal digits, with a minus sign when negative.\<close>

fun digits :: "nat \<Rightarrow> str" where
  "digits n = (if n < 10 then [48 + n] else digits (n div 10) @ [48 + n mod 10])"

declare digits.simps [simp del]

definition str_of_int :: "int \<Rightarrow> str" where
  "str_of_int i = (if i < 0 then 45 # digits (nat (- i)) else digits (nat i))"

text \<open>
  A \<open>Path\<close> below the traversal root is the list of its components relative to the
  root; \<open>dir_path\<close> stands for \<open>str(dir_path)\<close>. \<open>path_str\<close> is \<open>str\<close> of such a path: pathlib joins
  the components with \<open>/\<close>, dropping a root of \<open>.\<close> and not doubling the slash of \<open>/\<close>.
\<close>

definition path_str :: "str \<Rightarrow> str list \<Rightarrow> str" where
  "path_str dir_path rel =
     (if rel = [] then dir_path
      else if dir_path = py ''.'' then join (py ''/'') rel
      else if dir_path = py ''/'' then py ''/'' @ join (py ''/'') rel
      else join (py ''/'') (dir_path # rel))"

text \<open>
  \<open>Path.suffix\<close>: the last dot of the name and what follows it, unless that dot is the
  first or the last character of the name.
\<close>

definition path_suffix :: "str \<Rightarrow> str" where
  "path_suffix nm =
     (let ext = rev (takeWhile (\<lambda>c. c \<noteq> 46) (rev nm))
      in if 46 \<in> set nm \<and> ext \<noteq> [] \<and> length ext + 1 < length nm then 46 # ext else [])"

text \<open>\<open>os.path.basename\<close>: what follows the last slash.\<close>

definition basename :: "str \<Rightarrow> str" where
  "basename p = rev (takeWhile (\<lambda>c. c \<noteq> 47) (rev p))"

subsection \<open>The file system\<close>

text \<open>
  What \<open>open(...).read()\<close> does on a file: the decoded text, a \<open>UnicodeDecodeError\<close>, or
  another exception with its message.
\<close>

datatype read_result = Text str | UnicodeDecodeError | ReadError str

text \<open>
  A directory tree as the traversal sees it. A file has a name, the outcome of
  \<open>stat()\<close> (its \<open>st_size\<close>, or the message of the exception) and the outcome of reading
  it; a directory has a name and its entries, or the message of the exception raised while
  it is listed (by \<open>iterdir()\<close>, or by the sort key inside \<open>sorted\<close>, both before any
  entry is processed); anything else is neither a file nor a directory.
\<close>

datatype entry =
    File str "str + nat" read_result
  | Dir str "entry list"
  | UnreadableDir str str
  | Other str

fun name :: "entry \<Rightarrow> str" where
  "name (File n st r) = n"
| "name (Dir n es) = n"
| "name (UnreadableDir n e) = n"
| "name (Other n) = n"

fun is_file :: "entry \<Rightarrow> bool" where
  "is_file (File n st r) = True"
| "is_file _ = False"

fun is_dir :: "entry \<Rightarrow> bool" where
  "is_dir (Dir n es) = True"
| "is_dir (UnreadableDir n e) = True"
| "is_dir _ = False"

fun stat :: "entry \<Rightarrow> str + nat" where
  "stat (File n st r) = st"
| "stat _ = Inr 0"

fun read_of :: "entry \<Rightarrow> read_result" where
  "read_of (File n st r) = r"
| "read_of _ = ReadError (py ''Is a directory'')"

fun iterdir :: "entry \<Rightarrow> str + entry list" where
  "iterdir (Dir n es) = Inr es"
| "iterdir (UnreadableDir n e) = Inl e"
| "iterdir _ = Inl (py ''Not a directory'')"

subsection \<open>\<open>get_file_content\<close>\<close>

definition get_file_content :: "str \<Rightarrow> read_result \<Rightarrow> str" where
  "get_file_content file_path r =
     (case r of
        Text s \<Rightarrow> s
      | UnicodeDecodeError \<Rightarrow> py ''[Binary file: '' @ file_path @ py '']''
      | ReadError e \<Rightarrow> py ''[Error reading file '' @ file_path @ py '': '' @ e @ py '']'')"

subsection \<open>\<open>should_ignore\<close>\<close>

text \<open>
  One pass of the loop over \<open>ignored_patterns\<close>: whether this pattern makes
  \<open>should_ignore\<close> return \<open>True\<close>. \<open>pattern[:-1]\<close> is \<open>butlast\<close>, \<open>pattern[1:]\<close> is \<open>tl\<close>.
\<close>

definition pattern_matches :: "str \<Rightarrow> str \<Rightarrow> bool" where
  "pattern_matches pattern rel_path =
     (if endswith pattern (py ''/'') \<and> startswith rel_path (butlast pattern) then True
      else if startswith pattern (py ''*'') \<and> endswith rel_path (tl pattern) then True
      else if contains pattern rel_path then True
      else False)"

fun matches_ignored :: "str list \<Rightarrow> str \<Rightarrow> bool" where
  "matches_ignored [] rel_path = False"
| "matches_ignored (pattern # patterns) rel_path =
     (if pattern_matches pattern rel_path then True else matches_ignored patterns rel_path)"

definition binary_suffixes :: "str list" where
  "binary_suffixes =
     [py ''.jpg'', py ''.jpeg'', py ''.png'', py ''.gif'', py ''.pdf'', py ''.zip'', py ''.tar'',
      py ''.gz'']"

text \<open>
  \<open>rel\<close> is the entry's path relative to the traversal root, its own name last. The
  result is \<open>Inl\<close> when \<open>stat()\<close> raises.
\<close>

definition should_ignore :: "str list \<Rightarrow> str list \<Rightarrow> entry \<Rightarrow> str + bool" where
  "should_ignore ignored_patterns rel path =
     (if startswith (name path) (py ''.'') then Inr True
      else
        let rel_path = join (py ''/'') rel in
        if matches_ignored ignored_patterns rel_path then Inr True
        else if is_file path then
          (if path_suffix (name path) \<in> set binary_suffixes then Inr True
           else case stat path of
                  Inl e \<Rightarrow> Inl e
                | Inr st_size \<Rightarrow> if st_size > 1000000 then Inr True else Inr False)
        else Inr False)"

subsection \<open>\<open>get_directory_content\<close>\<close>

text \<open>
  The source appends formatted strings to \<open>result\<close>. The model appends the same lines
  as items that remember which line they are and which path they are about;
  \<open>render\<close> gives the string the source appends.
\<close>

datatype item =
    DirectoryHeader "str list"
  | FileHeader "str list"
  | FileBody "str list" str
  | SkippedFile "str list"
  | DirectoryError "str list" str
  | FileLimitWarning int

fun render :: "str \<Rightarrow> item \<Rightarrow> str" where
  "render dir_path (DirectoryHeader rel) = py ''===== Directory: '' @ path_str dir_path rel @ py '' =====''"
| "render dir_path (FileHeader rel) = py ''===== '' @ last rel @ py '' =====''"
| "render dir_path (FileBody rel content) = content"
| "render dir_path (SkippedFile rel) =
     py ''[Skipped file: '' @ last rel @ py '' - max file limit reached]''"
| "render dir_path (DirectoryError rel e) =
     py ''[Error reading directory '' @ path_str dir_path rel @ py '': '' @ e @ py '']''"
| "render dir_path (FileLimitWarning n) =
     py ''[Warning: Only processed '' @ str_of_int n
       @ py '' files. Additional files were skipped.]''"

fun item_path :: "item \<Rightarrow> str list" where
  "item_path (DirectoryHeader rel) = rel"
| "item_path (FileHeader rel) = rel"
| "item_path (FileBody rel content) = rel"
| "item_path (SkippedFile rel) = rel"
| "item_path (DirectoryError rel e) = rel"
| "item_path (FileLimitWarning n) = []"

fun is_file_body :: "item \<Rightarrow> bool" where
  "is_file_body (FileBody rel content) = True"
| "is_file_body _ = False"

record walk =
  result :: "item list"
  file_count :: int
  next_dirs :: "(str list \<times> entry) list"

text \<open>
  The inner \<open>for entry in sorted(...)\<close> loop, \<open>cur\<close> being the relative path of
  \<open>current_dir\<close>. It stops at the first exception and returns its message.
\<close>

fun process_entries ::
  "str \<Rightarrow> str list \<Rightarrow> int \<Rightarrow> str list \<Rightarrow> entry list \<Rightarrow> walk \<Rightarrow> str option \<times> walk" where
  "process_entries dir_path pats max_files cur [] w = (None, w)"
| "process_entries dir_path pats max_files cur (entry # entries) w =
     (let rel = cur @ [name entry] in
      case should_ignore pats rel entry of
        Inl e \<Rightarrow> (Some e, w)
      | Inr ignore \<Rightarrow>
          if ignore then process_entries dir_path pats max_files cur entries w
          else if is_file entry then
            (if file_count w < max_files then
               process_entries dir_path pats max_files cur entries
                 (w\<lparr>result := result w
                       @ [FileHeader rel,
                          FileBody rel (get_file_content (path_str dir_path rel) (read_of entry))],
                    file_count := file_count w + 1\<rparr>)
             else
               process_entries dir_path pats max_files cur entries
                 (w\<lparr>result := result w @ [SkippedFile rel]\<rparr>))
          else if is_dir entry then
            process_entries dir_path pats max_files cur entries
              (w\<lparr>next_dirs := next_dirs w @ [(rel, entry)]\<rparr>)
          else process_entries dir_path pats max_files cur entries w)"

text \<open>The body of \<open>for current_dir in dirs_to_process\<close>, with its \<open>try/except\<close>.\<close>

definition process_dir :: "str \<Rightarrow> str list \<Rightarrow> int \<Rightarrow> str list \<times> entry \<Rightarrow> walk \<Rightarrow> walk" where
  "process_dir dir_path pats max_files current_dir w =
     (let cur = fst current_dir;
          w1 = w\<lparr>result := result w @ [DirectoryHeader cur]\<rparr>
      in case iterdir (snd current_dir) of
           Inl e \<Rightarrow> w1\<lparr>result := result w1 @ [DirectoryError cur e]\<rparr>
         | Inr entries \<Rightarrow>
             (case process_entries dir_path pats max_files cur
                     (sort_key (\<lambda>x. (is_file x, name x)) entries) w1 of
                (None, w2) \<Rightarrow> w2
              | (Some e, w2) \<Rightarrow> w2\<lparr>result := result w2 @ [DirectoryError cur e]\<rparr>))"

fun process_level ::
  "str \<Rightarrow> str list \<Rightarrow> int \<Rightarrow> (str list \<times> entry) list \<Rightarrow> walk \<Rightarrow> walk" where
  "process_level dir_path pats max_files [] w = w"
| "process_level dir_path pats max_files (current_dir # dirs) w =
     process_level dir_path pats max_files dirs (process_dir dir_path pats max_files current_dir w)"

text \<open>
  The \<open>while dirs_to_process and current_depth < max_depth and file_count < max_files\<close>
  loop.
\<close>

function bfs_loop ::
  "str \<Rightarrow> str list \<Rightarrow> int \<Rightarrow> int \<Rightarrow> (str list \<times> entry) list \<Rightarrow> int \<Rightarrow> walk \<Rightarrow> walk" where
  "bfs_loop dir_path pats max_depth max_files dirs_to_process current_depth w =
     (if dirs_to_process \<noteq> [] \<and> current_depth < max_depth \<and> file_count w < max_files then
        let w' = process_level dir_path pats max_files dirs_to_process (w\<lparr>next_dirs := []\<rparr>)
        in bfs_loop dir_path pats max_depth max_files (next_dirs w') (current_depth + 1) w'
      else w)"
  by pat_completeness auto
termination
  by (relation "measure (\<lambda>(dir_path, pats, max_depth, max_files, dirs, current_depth, w).
        nat (max_depth - current_depth))") auto

declare bfs_loop.simps [simp del]

text \<open>The list \<open>result\<close> when the function reaches its last line.\<close>

definition directory_items :: "str \<Rightarrow> entry \<Rightarrow> str list \<Rightarrow> int \<Rightarrow> int \<Rightarrow> item list" where
  "directory_items dir_path root_dir pats max_depth max_files =
     (let w = bfs_loop dir_path pats max_depth max_files [([], root_dir)] 0
                \<lparr>result = [], file_count = 0, next_dirs = []\<rparr>
      in if file_count w \<ge> max_files then result w @ [FileLimitWarning (file_count w)]
         else result w)"

text \<open>
  \<open>get_directory_content(dir_path, max_depth, max_files)\<close>. \<open>dir_path\<close> stands for \<open>str(dir_path)\<close> and
  \<open>root_dir\<close> what the file system holds there. \<open>loaded\<close> is the outcome of lines 79-97,
  which ask git for the repository root and read its .gitignore: \<open>Inr\<close> the list
  \<open>ignored_patterns\<close> (empty without a git root or a .gitignore), or \<open>Inl\<close> the message
  of an exception raised while reading, which the outer handler turns into the result.
\<close>

definition get_directory_content :: "str \<Rightarrow> entry \<Rightarrow> str + str list \<Rightarrow> int \<Rightarrow> int \<Rightarrow> str" where
  "get_directory_content dir_path root_dir loaded max_depth max_files =
     (case loaded of
        Inl e \<Rightarrow> py ''[Error processing directory '' @ dir_path @ py '': '' @ e @ py '']''
      | Inr ignored_patterns \<Rightarrow>
          join [10, 10]
            (map (render dir_path)
               (directory_items dir_path root_dir ignored_patterns max_depth max_files)))"


subsection \<open>Invariants of the traversal\<close>

text \<open>
  Every change the traversal makes to its state while it reads the directory at relative
  path \<open>cur\<close> is one of five updates: the directory header, an error line, a file header
  with its body, a skipped-file line, a subdirectory queued for the next level. A
  predicate on states is closed under the steps at \<open>cur\<close> when each update keeps it.
\<close>

definition step_closed :: "str \<Rightarrow> str list \<Rightarrow> int \<Rightarrow> str list \<Rightarrow> (walk \<Rightarrow> bool) \<Rightarrow> bool" where
  "step_closed dp pats mf cur P \<longleftrightarrow>
     (\<forall>w. P w \<longrightarrow> P (w\<lparr>result := result w @ [DirectoryHeader cur]\<rparr>)) \<and>
     (\<forall>w e. P w \<longrightarrow> P (w\<lparr>result := result w @ [DirectoryError cur e]\<rparr>)) \<and>
     (\<forall>w e. P w \<and> should_ignore pats (cur @ [name e]) e = Inr False \<and> is_file e
            \<and> file_count w < mf \<longrightarrow>
        P (w\<lparr>result := result w
               @ [FileHeader (cur @ [name e]),
                  FileBody (cur @ [name e])
                    (get_file_content (path_str dp (cur @ [name e])) (read_of e))],
             file_count := file_count w + 1\<rparr>)) \<and>
     (\<forall>w e. P w \<and> should_ignore pats (cur @ [name e]) e = Inr False \<and> is_file e
            \<and> \<not> file_count w < mf \<longrightarrow>
        P (w\<lparr>result := result w @ [SkippedFile (cur @ [name e])]\<rparr>)) \<and>
     (\<forall>w e. P w \<and> should_ignore pats (cur @ [name e]) e = Inr False \<and> \<not> is_file e
            \<and> is_dir e \<longrightarrow>
        P (w\<lparr>next_dirs := next_dirs w @ [(cur @ [name e], e)]\<rparr>))"

text \<open>
  The invariants: directory headers stay below the depth limit and the queued directories
  are one level down; \<open>file_count\<close> counts the file bodies and stays within the limit; no
  path in the output or in the queue has a hidden or ignored component; the output only
  grows.
\<close>

definition depth_inv :: "int \<Rightarrow> nat \<Rightarrow> walk \<Rightarrow> bool" where
  "depth_inv max_depth n w \<longleftrightarrow>
     (\<forall>rel. DirectoryHeader rel \<in> set (result w) \<longrightarrow> int (length rel) < max_depth) \<and>
     (\<forall>d\<in>set (next_dirs w). length (fst d) = Suc n)"

definition count_inv :: "int \<Rightarrow> walk \<Rightarrow> bool" where
  "count_inv mf w \<longleftrightarrow>
     int (length (filter is_file_body (result w))) = file_count w \<and> file_count w \<le> mf"

definition clean :: "str list \<Rightarrow> str list \<Rightarrow> bool" where
  "clean pats rel \<longleftrightarrow>
     (\<forall>q. q \<noteq> [] \<and> prefix q rel \<longrightarrow>
        \<not> startswith (last q) (py ''.'') \<and> \<not> matches_ignored pats (join (py ''/'') q))"

definition clean_inv :: "str list \<Rightarrow> walk \<Rightarrow> bool" where
  "clean_inv pats w \<longleftrightarrow>
     (\<forall>it\<in>set (result w). clean pats (item_path it)) \<and>
     (\<forall>d\<in>set (next_dirs w). clean pats (fst d))"


text \<open>A small project directory with a hidden name, for running the traversal.\<close>

definition sample_tree :: entry where
  "sample_tree = Dir (py ''.proj'')
     [File (py ''b.py'') (Inr 10) (Text (py ''0123456789'')),
      File (py ''.env'') (Inr 6) (Text (py ''SECRET'')),
      Dir (py ''src'') [File (py ''a.py'') (Inr 3) (Text (py ''abc''))],
      Dir (py ''build'') [File (py ''out.txt'') (Inr 3) (Text (py ''obj''))]]"



section \<open>Query client (ocode.py, lines 167-348)\<close>

subsection \<open>The inference server as the client sees it\<close>

definition DEFAULT_MODEL :: str where
  "DEFAULT_MODEL = py ''qwen2.5-coder-128k:latest''"

text \<open>
  A parsed JSON value. An object is the Python dict the parser builds, so its keys are
  distinct. A number is shown as an integer; any number behaves the same in this code.
\<close>

datatype json =
    JNull
  | JBool bool
  | JNumber int
  | JString str
  | JArray "json list"
  | JObject "(str \<times> json) list"

text \<open>
  The exceptions the client can meet: one raised by the requests library (with its
  message), a body that is not JSON, and the three that Python raises when a parsed value
  does not have the shape the code expects.
\<close>

datatype py_exception =
    RequestException str
  | JSONDecodeError
  | AttributeError
  | TypeError
  | KeyError

text \<open>The \<open>options\<close> dictionary of the generate request.\<close>

datatype gen_options = Options (num_ctx: int) (temperature: real) (top_k: int) (top_p: real)

text \<open>
  The three requests the client makes: \<open>GET /version\<close>, \<open>GET /tags\<close>, and
  \<open>POST /generate\<close> with the fields \<open>model\<close>, \<open>prompt\<close>, \<open>stream\<close> and, in the user's
  query only, \<open>options\<close>.
\<close>

datatype request =
    GetVersion
  | GetTags
  | PostGenerate str str bool "gen_options option"

text \<open>
  A response of the requests library: its \<open>status_code\<close>, its \<open>text\<close>, what \<open>json()\<close>
  returns (\<open>None\<close> when it raises), the lines that \<open>iter_lines()\<close> yields, each with
  what \<open>json.loads\<close> makes of it (\<open>None\<close> when it raises \<open>JSONDecodeError\<close>), and the
  exception that ends the iteration early, if any.
\<close>

record response =
  status_code :: int
  body_text :: str
  body_json :: "json option"
  body_lines :: "(str \<times> json option) list"
  lines_error :: "py_exception option"

datatype reply = Raised py_exception | Responded response

text \<open>
  The server answers a request knowing the requests made before it: it may fail on one
  call and succeed on the next.
\<close>

type_synonym server = "request list \<Rightarrow> request \<Rightarrow> reply"

subsection \<open>What the program does, as a trace\<close>

text \<open>
  The observable actions in order: a \<open>log\<close> line with its colour (the timestamp is left
  out); a red \<open>log\<close> line of the form "message: exception"; one of the two \<open>log\<close> lines
  that report elapsed seconds; a \<open>print\<close> of a string; a \<open>print\<close> of a JSON value with
  its \<open>end\<close> string; and an HTTP request. The \<open>debug\<close> lines are left out of the trace; an
  expression inside a \<open>debug\<close> f-string that can raise is kept, since Python evaluates
  it whether or not debug mode is on.
\<close>

datatype colour = GREEN | YELLOW | RED

datatype event =
    Log "colour option" str
  | LogException str py_exception
  | LogElapsed str
  | Print str
  | PrintValue json str
  | Request request

fun is_print :: "event \<Rightarrow> bool" where
  "is_print (Print s) = True"
| "is_print (PrintValue v e) = True"
| "is_print _ = False"

definition requests_of :: "event list \<Rightarrow> request list" where
  "requests_of tr = List.map_filter (\<lambda>ev. case ev of Request rq \<Rightarrow> Some rq | _ \<Rightarrow> None) tr"

definition quoted :: "str \<Rightarrow> str" where
  "quoted s = [39] @ s @ [39]"

subsection \<open>\<open>check_ollama_status\<close>\<close>

text \<open>\<open>data.get(key, default)\<close>: an \<open>AttributeError\<close> unless \<open>data\<close> is a dict.\<close>

definition dict_get :: "json \<Rightarrow> str \<Rightarrow> json \<Rightarrow> py_exception + json" where
  "dict_get data key dflt =
     (case data of
        JObject kv \<Rightarrow> (case map_of kv key of Some v \<Rightarrow> Inr v | None \<Rightarrow> Inr dflt)
      | _ \<Rightarrow> Inl AttributeError)"

text \<open>\<open>model["name"]\<close>.\<close>

definition model_name :: "json \<Rightarrow> py_exception + json" where
  "model_name model =
     (case model of
        JObject kv \<Rightarrow> (case map_of kv (py ''name'') of Some v \<Rightarrow> Inr v | None \<Rightarrow> Inl KeyError)
      | _ \<Rightarrow> Inl TypeError)"

text \<open>The list comprehension \<open>[model["name"] for model in ...]\<close> over a list.\<close>

fun model_names_of :: "json list \<Rightarrow> py_exception + json list" where
  "model_names_of [] = Inr []"
| "model_names_of (model # models) =
     (case model_name model of
        Inl e \<Rightarrow> Inl e
      | Inr n \<Rightarrow> (case model_names_of models of Inl e \<Rightarrow> Inl e | Inr ns \<Rightarrow> Inr (n # ns)))"

text \<open>
  \<open>models = [model["name"] for model in data.get("models", [])]\<close>. Iterating a
  non-empty string or dict yields strings, on which \<open>["name"]\<close> raises; \<open>null\<close>, a
  boolean or a number cannot be iterated.
\<close>

definition model_names :: "json \<Rightarrow> py_exception + json list" where
  "model_names data =
     (case dict_get data (py ''models'') (JArray []) of
        Inl e \<Rightarrow> Inl e
      | Inr (JArray ms) \<Rightarrow> model_names_of ms
      | Inr (JString s) \<Rightarrow> if s = [] then Inr [] else Inl TypeError
      | Inr (JObject kv) \<Rightarrow> if kv = [] then Inr [] else Inl TypeError
      | Inr _ \<Rightarrow> Inl TypeError)"

text \<open>\<open>', '.join(models)\<close>: a \<open>TypeError\<close> unless every element is a string.\<close>

fun strings_of :: "json list \<Rightarrow> py_exception + str list" where
  "strings_of [] = Inr []"
| "strings_of (JString s # vs) =
     (case strings_of vs of Inl e \<Rightarrow> Inl e | Inr ss \<Rightarrow> Inr (s # ss))"
| "strings_of (_ # vs) = Inl TypeError"

text \<open>\<open>value[:50]\<close>: a string or a list can be sliced, nothing else.\<close>

fun sliceable :: "json \<Rightarrow> bool" where
  "sliceable (JString s) = True"
| "sliceable (JArray vs) = True"
| "sliceable _ = False"

text \<open>\<open>len(value)\<close>: defined on strings, lists and dicts.\<close>

fun has_len :: "json \<Rightarrow> bool" where
  "has_len (JString s) = True"
| "has_len (JArray vs) = True"
| "has_len (JObject kv) = True"
| "has_len _ = False"

text \<open>
  The three \<open>try\<close> blocks of \<open>check_ollama_status\<close>, each on the reply to its request:
  whether the step passes, and the lines it logs.
\<close>

definition version_step :: "reply \<Rightarrow> bool \<times> event list" where
  "version_step rp =
     (case rp of
        Raised e \<Rightarrow> (False, [LogException (py ''Error connecting to Ollama'') e])
      | Responded r \<Rightarrow>
          if status_code r = 200 then
            (case body_json r of
               None \<Rightarrow> (False, [LogException (py ''Error connecting to Ollama'') JSONDecodeError])
             | Some data \<Rightarrow> (True, []))
          else (False, [Log (Some RED) (py ''Ollama server is not responding correctly'')]))"

definition tags_step :: "reply \<Rightarrow> bool \<times> event list" where
  "tags_step rp =
     (case rp of
        Raised e \<Rightarrow> (False, [LogException (py ''Error checking available models'') e])
      | Responded r \<Rightarrow>
          if status_code r = 200 then
            (case body_json r of
               None \<Rightarrow>
                 (False, [LogException (py ''Error checking available models'') JSONDecodeError])
             | Some data \<Rightarrow>
                 (case model_names data of
                    Inl e \<Rightarrow> (False, [LogException (py ''Error checking available models'') e])
                  | Inr models \<Rightarrow>
                      if JString DEFAULT_MODEL \<in> set models then (True, [])
                      else
                        (False,
                         Log (Some RED)
                           (py ''Required model '' @ quoted DEFAULT_MODEL @ py '' is not available'')
                         # (case strings_of models of
                              Inl e \<Rightarrow>
                                [LogException (py ''Error checking available models'') e]
                            | Inr names \<Rightarrow>
                                [Log (Some YELLOW)
                                   (py ''Available models: '' @ join (py '', '') names)]))))
          else (False, [Log (Some RED) (py ''Failed to get model list from Ollama'')]))"

definition test_request :: request where
  "test_request = PostGenerate DEFAULT_MODEL (py ''Hello!'') False None"

definition test_step :: "reply \<Rightarrow> bool \<times> event list" where
  "test_step rp =
     (case rp of
        Raised e \<Rightarrow> (False, [LogException (py ''Error testing model'') e])
      | Responded r \<Rightarrow>
          if status_code r = 200 then
            (case body_json r of
               None \<Rightarrow> (False, [LogException (py ''Error testing model'') JSONDecodeError])
             | Some data \<Rightarrow>
                 (case dict_get data (py ''response'') (JString []) of
                    Inl e \<Rightarrow> (False, [LogException (py ''Error testing model'') e])
                  | Inr v \<Rightarrow>
                      if sliceable v then (True, [])
                      else (False, [LogException (py ''Error testing model'') TypeError])))
          else
            (False,
             [Log (Some RED)
                (py ''Model test failed with status code: '' @ str_of_int (status_code r))]))"

text \<open>
  \<open>check_ollama_status()\<close>: its return value and its trace. \<open>hist\<close> is the list of
  requests made before the call.
\<close>

definition check_ollama_status :: "server \<Rightarrow> request list \<Rightarrow> bool \<times> event list" where
  "check_ollama_status srv hist =
     (let tr1 = [Log None (py ''Performing detailed Ollama status check...''), Request GetVersion];
          s1 = version_step (srv hist GetVersion)
      in if \<not> fst s1 then (False, tr1 @ snd s1)
         else
           let tr2 = tr1 @ snd s1 @ [Request GetTags];
               s2 = tags_step (srv (hist @ [GetVersion]) GetTags)
           in if \<not> fst s2 then (False, tr2 @ snd s2)
              else
                let tr3 = tr2 @ snd s2 @ [Request test_request];
                    s3 = test_step (srv (hist @ [GetVersion, GetTags]) test_request)
                in if \<not> fst s3 then (False, tr3 @ snd s3)
                   else
                     (True,
                      tr3 @ snd s3
                        @ [Log (Some GREEN) (py ''Ollama status: Ollama is fully operational'')]))"

subsection \<open>\<open>create_prompt\<close> and \<open>send_query_to_ollama\<close>\<close>

text \<open>
  \<open>create_prompt\<close>: \<open>content\<close> is always a string here, and \<open>content.splitlines()\<close> is
  empty exactly for the empty string.
\<close>

definition create_prompt :: "str \<Rightarrow> str \<Rightarrow> str \<Rightarrow> str" where
  "create_prompt content query target_path =
     (let formatted_content =
            (if content \<noteq> [] then
               py ''===== '' @ basename target_path @ py '' ====='' @ [10] @ content
             else content)
      in py ''I'' @ [39]
           @ py ''ll provide code from my project for you to analyze. ''
           @ py ''Please focus on answering my query effectively.'' @ [10, 10]
           @ py ''Project Files:'' @ [10] @ formatted_content @ [10, 10]
           @ py ''Query: '' @ query @ [10, 10]
           @ py ''Please provide a detailed answer focusing specifically on my query.'')"

text \<open>
  The loop over \<open>response.iter_lines()\<close>: empty lines are skipped, a line that is not
  JSON is skipped (a debug note only), and \<open>chunk.get\<close> raises when the line is JSON but
  not an object, which leaves the loop for the outer handler.
\<close>

fun stream_lines :: "(str \<times> json option) list \<Rightarrow> py_exception option \<times> event list" where
  "stream_lines [] = (None, [])"
| "stream_lines ((line, parsed) # rest) =
     (if line = [] then stream_lines rest
      else case parsed of
             None \<Rightarrow> stream_lines rest
           | Some chunk \<Rightarrow>
               (case dict_get chunk (py ''response'') (JString []) of
                  Inl e \<Rightarrow> (Some e, [])
                | Inr v \<Rightarrow>
                    (case stream_lines rest of (x, evs) \<Rightarrow> (x, PrintValue v [] # evs))))"

definition response_banner :: str where
  "response_banner = [10] @ py ''=== Ollama Response ==='' @ [10]"

definition status_error :: "int \<Rightarrow> event" where
  "status_error code = Log (Some RED) (py ''Error: Received status code '' @ str_of_int code)"

definition communication_error :: "py_exception \<Rightarrow> event" where
  "communication_error e = LogException (py ''Error communicating with Ollama'') e"

definition processing_complete :: event where
  "processing_complete = Log None (py ''Processing complete!'')"

text \<open>The request that carries the user's prompt.\<close>

definition user_request :: "str \<Rightarrow> bool \<Rightarrow> int option \<Rightarrow> request" where
  "user_request prompt stream dynamic_ctx_size =
     (let ctx_size =
            (case dynamic_ctx_size of
               None \<Rightarrow> MAX_CONTEXT_SIZE
             | Some n \<Rightarrow> if n \<noteq> 0 then n else MAX_CONTEXT_SIZE)
      in PostGenerate DEFAULT_MODEL prompt stream (Some (Options ctx_size 0.2 40 0.9)))"

text \<open>The streaming branch, after its request has been answered by \<open>rp\<close>.\<close>

definition streaming_branch :: "reply \<Rightarrow> event list" where
  "streaming_branch rp =
     (case rp of
        Raised e \<Rightarrow> [communication_error e, processing_complete]
      | Responded r \<Rightarrow>
          if status_code r \<noteq> 200 then [status_error (status_code r)]
          else
            (case stream_lines (body_lines r) of
               (Some e, evs) \<Rightarrow> evs @ [communication_error e, processing_complete]
             | (None, evs) \<Rightarrow>
                 (case lines_error r of
                    Some e \<Rightarrow> evs @ [communication_error e, processing_complete]
                  | None \<Rightarrow>
                      evs @ [Print [10], LogElapsed (py ''Streaming completed''),
                             processing_complete])))"

text \<open>The non-streaming branch, after its request has been answered by \<open>rp\<close>.\<close>

definition collecting_branch :: "reply \<Rightarrow> event list" where
  "collecting_branch rp =
     (case rp of
        Raised e \<Rightarrow> [communication_error e, processing_complete]
      | Responded r \<Rightarrow>
          if status_code r = 200 then
            (case body_json r of
               None \<Rightarrow> [communication_error JSONDecodeError, processing_complete]
             | Some (JObject kv) \<Rightarrow>
                 (case map_of kv (py ''response'') of
                    None \<Rightarrow> [LogElapsed (py ''Response completed''), processing_complete]
                  | Some v \<Rightarrow>
                      if has_len v then
                        [LogElapsed (py ''Response completed''), Print response_banner,
                         PrintValue v [10], processing_complete]
                      else
                        [LogElapsed (py ''Response completed''), communication_error TypeError,
                         processing_complete])
             | Some _ \<Rightarrow> [communication_error AttributeError, processing_complete])
          else [status_error (status_code r), Print (body_text r), processing_complete])"

text \<open>
  \<open>send_query_to_ollama(prompt, stream, dynamic_ctx_size)\<close>: its trace. \<open>encode\<close> is the
  tokenizer of \<open>count_tokens\<close>, \<open>hist\<close> the requests made before the call.
\<close>

definition send_query_to_ollama ::
  "server \<Rightarrow> (str \<Rightarrow> nat list option) \<Rightarrow> request list \<Rightarrow> str \<Rightarrow> bool \<Rightarrow> int option \<Rightarrow> event list" where
  "send_query_to_ollama srv encode hist prompt stream dynamic_ctx_size =
     (let est_tokens = count_tokens encode prompt;
          tr0 = [Log None (py ''Prompt size: ~'' @ str_of_int est_tokens
                           @ py '' tokens (approximate)'')];
          status = check_ollama_status srv hist
      in if \<not> fst status then
           tr0 @ snd status
             @ [Log (Some RED) (py ''Ollama is not ready. Please check the service status.'')]
         else
           let rq = user_request prompt stream dynamic_ctx_size;
               rp = srv (hist @ requests_of (snd status)) rq
           in if stream then
                tr0 @ snd status
                  @ [Log None (py ''Streaming response from Ollama...''), Print response_banner,
                     Request rq]
                  @ streaming_branch rp
              else
                tr0 @ snd status
                  @ [Log None
                       (py ''Waiting for response (this might take a while for long prompts)...''),
                     Request rq]
                  @ collecting_branch rp)"

section \<open>\<open>main\<close> (ocode.py, lines 350-412)\<close>

text \<open>
  The parsed command line, and the world the program runs in: what the file system holds
  at the target path (\<open>None\<close> when \<open>exists()\<close> is false), the outcome of loading the
  ignore patterns, the tokenizer, and the server. The target is taken in the form pathlib
  prints it.
\<close>

record args =
  arg_target :: str
  arg_query :: str
  arg_debug :: bool
  arg_stream :: bool
  arg_max_files :: int
  arg_max_depth :: int

record env =
  env_target :: "entry option"
  env_loaded :: "str + str list"
  env_encode :: "str \<Rightarrow> nat list option"
  env_server :: server

text \<open>Lines 397-412: from the content that was read to the exit code 0.\<close>

definition query_with :: "env \<Rightarrow> args \<Rightarrow> str \<Rightarrow> event list" where
  "query_with E A content =
     (let prompt = create_prompt content (arg_query A) (arg_target A);
          token_count = count_tokens (env_encode E) prompt;
          dynamic_ctx_size = context_size token_count
      in Log None (py ''Using dynamic context size: '' @ str_of_int dynamic_ctx_size
                   @ py '' tokens'')
         # send_query_to_ollama (env_server E) (env_encode E) [] prompt (arg_stream A)
             (Some dynamic_ctx_size))"

text \<open>\<open>main()\<close>: the exit code and the trace.\<close>

definition main :: "env \<Rightarrow> args \<Rightarrow> int \<times> event list" where
  "main E A =
     (let tr0 =
            [Log (Some GREEN)
               (py ''Starting ocode.py'' @ (if arg_debug A then py '' (DEBUG MODE)'' else [])),
             Log None (py ''Target: '' @ arg_target A),
             Log None (py ''Query: '' @ arg_query A)]
      in case env_target E of
           None \<Rightarrow>
             (1, tr0 @ [Log (Some RED)
                          (py ''Error: Target '' @ quoted (arg_target A) @ py '' does not exist'')])
         | Some node \<Rightarrow>
             if is_file node then
               (let content = get_file_content (arg_target A) (read_of node)
                in (0, tr0
                       @ [Log None (py ''Reading file: '' @ arg_target A),
                          Log None (py ''Read '' @ str_of_int (int (length content))
                                    @ py '' bytes from '' @ arg_target A)]
                       @ query_with E A content))
             else if is_dir node then
               (let content =
                      get_directory_content (arg_target A) node (env_loaded E)
                        (arg_max_depth A) (arg_max_files A)
                in (0, tr0
                       @ [Log None (py ''Reading directory: '' @ arg_target A
                                    @ py '' (max depth: '' @ str_of_int (arg_max_depth A)
                                    @ py '', max files: '' @ str_of_int (arg_max_files A)
                                    @ py '')''),
                          Log None (py ''Processed directory content (''
                                    @ str_of_int (int (length content)) @ py '' bytes)'')]
                       @ query_with E A content))
             else
               (1, tr0 @ [Log (Some RED)
                            (py ''Error: Target '' @ quoted (arg_target A)
                             @ py '' is neither a file nor a directory'')]))"

subsection \<open>The pre-flight checks in the specification's words\<close>

datatype preflight = VersionCheck | TagsCheck | TestPromptCheck

text \<open>The server's version endpoint is reachable: it answers 200 with a JSON body.\<close>

definition version_reachable :: "reply \<Rightarrow> bool" where
  "version_reachable rp =
     (case rp of Raised e \<Rightarrow> False
      | Responded r \<Rightarrow> status_code r = 200 \<and> body_json r \<noteq> None)"

text \<open>The target model is present in the tags list.\<close>

definition model_present :: "reply \<Rightarrow> bool" where
  "model_present rp =
     (case rp of Raised e \<Rightarrow> False
      | Responded r \<Rightarrow>
          status_code r = 200
          \<and> (case body_json r of None \<Rightarrow> False
              | Some data \<Rightarrow>
                  (case model_names data of Inl e \<Rightarrow> False
                   | Inr models \<Rightarrow> JString DEFAULT_MODEL \<in> set models)))"

text \<open>The trivial test prompt succeeds: 200 with a JSON object whose response can be read.\<close>

definition test_prompt_succeeds :: "reply \<Rightarrow> bool" where
  "test_prompt_succeeds rp =
     (case rp of Raised e \<Rightarrow> False
      | Responded r \<Rightarrow>
          status_code r = 200
          \<and> (case body_json r of None \<Rightarrow> False
              | Some data \<Rightarrow>
                  (case dict_get data (py ''response'') (JString []) of Inl e \<Rightarrow> False
                   | Inr v \<Rightarrow> sliceable v)))"

text \<open>
  The first check that fails, if any, each check being made on the server's reply to its
  own request.
\<close>

definition failing_check :: "server \<Rightarrow> request list \<Rightarrow> preflight option" where
  "failing_check srv hist =
     (if \<not> version_reachable (srv hist GetVersion) then Some VersionCheck
      else if \<not> model_present (srv (hist @ [GetVersion]) GetTags) then Some TagsCheck
      else if \<not> test_prompt_succeeds (srv (hist @ [GetVersion, GetTags]) test_request)
        then Some TestPromptCheck
      else None)"

text \<open>A log line that reports the failure of a given check.\<close>

fun reports :: "preflight \<Rightarrow> event \<Rightarrow> bool" where
  "reports VersionCheck (Log c m) =
     (c = Some RED \<and> m = py ''Ollama server is not responding correctly'')"
| "reports VersionCheck (LogException m e) = (m = py ''Error connecting to Ollama'')"
| "reports TagsCheck (Log c m) =
     (c = Some RED
      \<and> (m = py ''Required model '' @ quoted DEFAULT_MODEL @ py '' is not available''
         \<or> m = py ''Failed to get model list from Ollama''))"
| "reports TagsCheck (LogException m e) = (m = py ''Error checking available models'')"
| "reports TestPromptCheck (Log c m) =
     (c = Some RED \<and> prefix (py ''Model test failed with status code: '') m)"
| "reports TestPromptCheck (LogException m e) = (m = py ''Error testing model'')"
| "reports _ _ = False"

text \<open>A server for examples: every check passes, and the user's query is answered by \<open>rp\<close>.\<close>

definition ok_response :: "json \<Rightarrow> response" where
  "ok_response data =
     \<lparr>status_code = 200, body_text = [], body_json = Some data, body_lines = [],
      lines_error = None\<rparr>"

definition healthy_server :: "reply \<Rightarrow> server" where
  "healthy_server rp hist rq =
     (case rq of
        GetVersion \<Rightarrow> Responded (ok_response (JObject [(py ''version'', JString (py ''0.5.1''))]))
      | GetTags \<Rightarrow>
          Responded (ok_response
            (JObject [(py ''models'', JArray [JObject [(py ''name'', JString DEFAULT_MODEL)]])]))
      | PostGenerate m p s None \<Rightarrow>
          Responded (ok_response (JObject [(py ''response'', JString (py ''Hi''))]))
      | PostGenerate m p s (Some opts) \<Rightarrow> rp)"

definition error_500 :: reply where
  "error_500 =
     Responded \<lparr>status_code = 500, body_text = py ''model runner crashed'', body_json = None,
                body_lines = [], lines_error = None\<rparr>"

text \<open>A server that is down: every request raises.\<close>

definition dead_server :: server where
  "dead_server hist rq = Raised (RequestException (py ''Connection refused''))"

definition sample_args :: args where
  "sample_args =
     \<lparr>arg_target = py ''missing.py'', arg_query = py ''What does this do?'', arg_debug = False,
      arg_stream = True, arg_max_files = 50, arg_max_depth = 3\<rparr>"

definition sample_env :: "entry option \<Rightarrow> env" where
  "sample_env node =
     \<lparr>env_target = node, env_loaded = Inr [], env_encode = (\<lambda>s. None),
      env_server = healthy_server error_500\<rparr>"


subsection \<open>Auxiliary notions for the proofs about the query client\<close>

text \<open>
  A list of events is quiet when it prints nothing and makes no request; a trace reports
  only the check \<open>c\<close> when some line of it reports \<open>c\<close>, no line reports another check,
  nothing is printed, and its requests are those of the pre-flight checks.
\<close>

definition quiet :: "event list \<Rightarrow> bool" where
  "quiet evs \<longleftrightarrow> (\<forall>ev\<in>set evs. \<not> is_print ev \<and> (\<forall>rq. ev \<noteq> Request rq))"

definition only_reports :: "preflight \<Rightarrow> event list \<Rightarrow> bool" where
  "only_reports c tr \<longleftrightarrow>
     (\<exists>ev\<in>set tr. reports c ev) \<and> (\<forall>ev\<in>set tr. \<forall>c'. reports c' ev \<longrightarrow> c' = c)
     \<and> (\<forall>ev\<in>set tr. \<not> is_print ev)
     \<and> set (requests_of tr) \<subseteq> {GetVersion, GetTags, test_request}"

text \<open>The line \<open>send_query_to_ollama\<close> logs when the checks fail.\<close>

definition not_ready :: event where
  "not_ready = Log (Some RED) (py ''Ollama is not ready. Please check the service status.'')"


section \<open>Properties of the context sizer\<close>

lemma bit_length_nat_0 [simp]: "bit_length_nat 0 = 0"
  by (simp add: bit_length_nat.simps)

lemma bit_length_nat_rec:
  "n \<noteq> 0 \<Longrightarrow> bit_length_nat n = Suc (bit_length_nat (n div 2))"
  by (subst bit_length_nat.simps) simp

lemma bit_length_nat_upper: "n < 2 ^ bit_length_nat n"
proof (induction n rule: bit_length_nat.induct)
  case (1 n)
  show ?case
  proof (cases "n = 0")
    case True
    then show ?thesis by simp
  next
    case False
    with 1 have "n div 2 < 2 ^ bit_length_nat (n div 2)" by simp
    then have "n < 2 * 2 ^ bit_length_nat (n div 2)" by linarith
    with False show ?thesis by (simp add: bit_length_nat_rec)
  qed
qed

lemma bit_length_nat_lower: "n \<noteq> 0 \<Longrightarrow> 2 ^ (bit_length_nat n - 1) \<le> n"
proof (induction n rule: bit_length_nat.induct)
  case (1 n)
  show ?case
  proof (cases "n div 2 = 0")
    case True
    with 1(2) have "n = 1" by linarith
    then show ?thesis by (simp add: bit_length_nat_rec)
  next
    case False
    with 1 have ih: "2 ^ (bit_length_nat (n div 2) - 1) \<le> n div 2" by simp
    from False obtain j where j: "bit_length_nat (n div 2) = Suc j"
      by (simp add: bit_length_nat_rec)
    from ih j have "2 * 2 ^ j \<le> n" by simp
    with 1(2) j show ?thesis by (simp add: bit_length_nat_rec)
  qed
qed

lemma bit_length_nat_mono: "m \<le> n \<Longrightarrow> bit_length_nat m \<le> bit_length_nat n"
proof (rule ccontr)
  assume mn: "m \<le> n" and "\<not> bit_length_nat m \<le> bit_length_nat n"
  then have lt: "bit_length_nat n \<le> bit_length_nat m - 1" and m0: "bit_length_nat m \<noteq> 0"
    by linarith+
  from m0 have "m \<noteq> 0" by (rule contrapos_nn) simp
  then have "2 ^ (bit_length_nat m - 1) \<le> m" by (rule bit_length_nat_lower)
  moreover have "(2::nat) ^ bit_length_nat n \<le> 2 ^ (bit_length_nat m - 1)"
    using lt by (simp add: power_increasing)
  moreover have "n < 2 ^ bit_length_nat n" by (rule bit_length_nat_upper)
  ultimately show False using mn by linarith
qed

text \<open>
  A power of two \<open>2 ^ j\<close> brackets \<open>x\<close> when \<open>x \<le> 2 ^ j\<close> and the power below it, if
  there is one, is smaller than \<open>x\<close>. At most one exponent does.
\<close>

lemma pow2_bracket_unique:
  fixes x :: nat
  assumes "x \<le> 2 ^ i" "i = 0 \<or> 2 ^ (i - 1) < x" "x \<le> 2 ^ j" "j = 0 \<or> 2 ^ (j - 1) < x"
  shows "i = j"
proof (rule ccontr)
  assume ne: "i \<noteq> j"
  have aux: "False" if "a < b" "x \<le> 2 ^ a" "b = 0 \<or> 2 ^ (b - 1) < x" for a b :: nat
  proof -
    from that have "2 ^ (b - 1) < x" by auto
    moreover have "(2::nat) ^ a \<le> 2 ^ (b - 1)" using that(1) by (simp add: power_increasing)
    ultimately show False using that(2) by linarith
  qed
  from ne consider "i < j" | "j < i" by linarith
  then show False using aux assms by cases blast+
qed

lemma next_power_of_two_from_bracket:
  "p = 2 ^ k \<Longrightarrow> k = 0 \<or> 2 ^ (k - 1) < x \<Longrightarrow>
   \<exists>j. next_power_of_two_from p x = 2 ^ j \<and> x \<le> 2 ^ j \<and> (j = 0 \<or> 2 ^ (j - 1) < x)"
proof (induction p x arbitrary: k rule: next_power_of_two_from.induct)
  case (1 p x)
  show ?case
  proof (cases "x \<le> p")
    case True
    with 1(2,3) show ?thesis by (subst next_power_of_two_from.simps) auto
  next
    case False
    with 1(2) have p0: "\<not> (p = 0 \<or> x \<le> p)" by simp
    have "2 * p = 2 ^ Suc k" using 1(2) by simp
    moreover have "Suc k = 0 \<or> 2 ^ (Suc k - 1) < x" using False 1(2) by simp
    ultimately have "\<exists>j. next_power_of_two_from (2 * p) x = 2 ^ j \<and> x \<le> 2 ^ j
        \<and> (j = 0 \<or> 2 ^ (j - 1) < x)"
      using 1(1)[OF p0] by blast
    with p0 show ?thesis by (subst next_power_of_two_from.simps) simp
  qed
qed

text \<open>
  \<^const>\<open>next_power_of_two\<close> is what its name says: a power of two, not below its argument,
  and not above any other such power.
\<close>

lemma next_power_of_two_least:
  "x \<le> next_power_of_two x \<and> (\<exists>j. next_power_of_two x = 2 ^ j)
   \<and> (\<forall>k. x \<le> 2 ^ k \<longrightarrow> next_power_of_two x \<le> 2 ^ k)"
proof -
  obtain j where j: "next_power_of_two x = 2 ^ j" "x \<le> 2 ^ j" "j = 0 \<or> 2 ^ (j - 1) < x"
    using next_power_of_two_from_bracket[of 1 0 x] by (auto simp: next_power_of_two_def)
  have "next_power_of_two x \<le> 2 ^ k" if "x \<le> 2 ^ k" for k
  proof (rule ccontr)
    assume "\<not> next_power_of_two x \<le> 2 ^ k"
    with j(1) have "(2::nat) ^ k < 2 ^ j" by simp
    then have "k < j" by simp
    then have "(2::nat) ^ k \<le> 2 ^ (j - 1)" by (simp add: power_increasing)
    moreover from \<open>k < j\<close> j(3) have "2 ^ (j - 1) < x" by auto
    ultimately show False using that by linarith
  qed
  with j show ?thesis by auto
qed

lemma next_power_of_two_bit_length:
  assumes "1 \<le> x"
  shows "next_power_of_two x = 2 ^ bit_length_nat (x - 1)"
proof -
  obtain j where j: "next_power_of_two x = 2 ^ j" "x \<le> 2 ^ j" "j = 0 \<or> 2 ^ (j - 1) < x"
    using next_power_of_two_from_bracket[of 1 0 x] by (auto simp: next_power_of_two_def)
  let ?b = "bit_length_nat (x - 1)"
  have "x - 1 < 2 ^ ?b" by (rule bit_length_nat_upper)
  then have up: "x \<le> 2 ^ ?b" by linarith
  have lo: "?b = 0 \<or> 2 ^ (?b - 1) < x"
  proof (cases "x - 1 = 0")
    case True
    then show ?thesis by simp
  next
    case False
    then have "2 ^ (?b - 1) \<le> x - 1" by (rule bit_length_nat_lower)
    with assms False show ?thesis by linarith
  qed
  from pow2_bracket_unique[OF j(2) j(3) up lo] j(1) show ?thesis by simp
qed

lemma context_size_power_of_two: "\<exists>k. context_size t = 2 ^ k"
proof -
  have "(4096::int) = 2 ^ 12" by simp
  then show ?thesis
    unfolding context_size_def Let_def max_def by (metis (full_types))
qed

lemma context_size_floor: "4096 \<le> context_size t"
  by (simp add: context_size_def Let_def)


lemmas context_size_eval =
  context_size_def MAX_CONTEXT_SIZE_def TOKEN_BUFFER_def bit_length_def bit_length_nat_rec

lemma context_size_upper: "0 \<le> t \<Longrightarrow> context_size t \<le> 131072"
proof -
  assume "0 \<le> t"
  let ?d = "min MAX_CONTEXT_SIZE (t + TOKEN_BUFFER)"
  have "nat \<bar>?d - 1\<bar> \<le> 127999"
    using \<open>0 \<le> t\<close> unfolding MAX_CONTEXT_SIZE_def TOKEN_BUFFER_def by linarith
  then have "bit_length (?d - 1) \<le> bit_length_nat 127999"
    unfolding bit_length_def by (rule bit_length_nat_mono)
  also have "bit_length_nat 127999 = 17" by (simp add: bit_length_nat_rec)
  finally have "(2::int) ^ bit_length (?d - 1) \<le> 2 ^ 17" by (rule power_increasing) simp
  then show ?thesis by (simp add: context_size_def Let_def)
qed


section \<open>Properties of the token estimators\<close>

lemma split_from_nonempty: "cur \<noteq> [] \<Longrightarrow> 1 \<le> length (split_from sp cur u)"
  by (induction u arbitrary: cur) auto

lemma split_from_append_mono:
  "length (split_from sp cur t) \<le> length (split_from sp cur (t @ u))"
proof (induction t arbitrary: cur)
  case Nil
  then show ?case using split_from_nonempty[of cur sp u] by auto
next
  case (Cons c t)
  then show ?case by auto
qed

lemma split_append_mono: "length (split U t) \<le> length (split U (t @ u))"
  unfolding split_def by (rule split_from_append_mono)

text \<open>The estimate counts halves: words and CJK characters twice, digits and specials once.\<close>

lemma estimate_qwen_tokens_halves:
  "estimate_qwen_tokens U text =
     int ((2 * (length (split U text)
               + length (filter (\<lambda>char. char > 0x4E00 \<and> char < 0x9FFF) text))
           + length (filter (isdigit U) text)
           + length (filter (\<lambda>char. \<not> (isalnum U char \<or> isspace U char)) text)) div 2)"
proof -
  let ?w = "length (split U text)"
  let ?c = "length (filter (\<lambda>char. char > 0x4E00 \<and> char < 0x9FFF) text)"
  let ?n = "length (filter (isdigit U) text)"
  let ?s = "length (filter (\<lambda>char. \<not> (isalnum U char \<or> isspace U char)) text)"
  let ?e = "real ?w + real ?c + (real ?n * 0.5) + (real ?s * 0.5)"
  have e: "?e = real (2 * (?w + ?c) + ?n + ?s) / real 2" by simp
  have "0 \<le> ?e" by simp
  then have "py_int ?e = \<lfloor>?e\<rfloor>" by (simp only: py_int_def if_True)
  also have "\<dots> = int ((2 * (?w + ?c) + ?n + ?s) div 2)"
    unfolding e by (rule floor_divide_of_nat_eq)
  finally show ?thesis by (simp add: estimate_qwen_tokens_def Let_def)
qed


section \<open>Properties of the content aggregator\<close>

lemma step_closed_header:
  "step_closed dp pats mf cur P \<Longrightarrow> P w \<Longrightarrow> P (w\<lparr>result := result w @ [DirectoryHeader cur]\<rparr>)"
  by (simp add: step_closed_def)

lemma step_closed_error:
  "step_closed dp pats mf cur P \<Longrightarrow> P w \<Longrightarrow> P (w\<lparr>result := result w @ [DirectoryError cur m]\<rparr>)"
  by (simp add: step_closed_def)

lemma step_closed_body:
  "step_closed dp pats mf cur P \<Longrightarrow> P w \<Longrightarrow> should_ignore pats (cur @ [name e]) e = Inr False
   \<Longrightarrow> is_file e \<Longrightarrow> file_count w < mf \<Longrightarrow>
   P (w\<lparr>result := result w
               @ [FileHeader (cur @ [name e]),
                  FileBody (cur @ [name e])
                    (get_file_content (path_str dp (cur @ [name e])) (read_of e))],
             file_count := file_count w + 1\<rparr>)"
  by (simp add: step_closed_def)

lemma step_closed_skipped:
  "step_closed dp pats mf cur P \<Longrightarrow> P w \<Longrightarrow> should_ignore pats (cur @ [name e]) e = Inr False
   \<Longrightarrow> is_file e \<Longrightarrow> \<not> file_count w < mf \<Longrightarrow>
   P (w\<lparr>result := result w @ [SkippedFile (cur @ [name e])]\<rparr>)"
  by (simp add: step_closed_def)

lemma step_closed_subdir:
  "step_closed dp pats mf cur P \<Longrightarrow> P w \<Longrightarrow> should_ignore pats (cur @ [name e]) e = Inr False
   \<Longrightarrow> \<not> is_file e \<Longrightarrow> is_dir e \<Longrightarrow>
   P (w\<lparr>next_dirs := next_dirs w @ [(cur @ [name e], e)]\<rparr>)"
  by (simp add: step_closed_def)

lemma process_entries_closed:
  assumes "step_closed dp pats mf cur P"
  shows "P w \<Longrightarrow> P (snd (process_entries dp pats mf cur es w))"
proof (induction es arbitrary: w)
  case Nil
  then show ?case by simp
next
  case (Cons e es)
  let ?rel = "cur @ [name e]"
  show ?case
  proof (cases "should_ignore pats ?rel e")
    case (Inl m)
    with Cons.prems show ?thesis by simp
  next
    case (Inr ignore)
    show ?thesis
    proof (cases ignore)
      case True
      have "P (snd (process_entries dp pats mf cur es w))" using Cons.prems by (rule Cons.IH)
      with Inr True show ?thesis by (simp add: Let_def)
    next
      case False
      from Inr False have ign: "should_ignore pats ?rel e = Inr False" by simp
      consider (body) "is_file e" "file_count w < mf"
        | (skipped) "is_file e" "\<not> file_count w < mf"
        | (subdir) "\<not> is_file e" "is_dir e"
        | (other) "\<not> is_file e" "\<not> is_dir e" by blast
      then show ?thesis
      proof cases
        case body
        have "P (w\<lparr>result := result w
               @ [FileHeader ?rel, FileBody ?rel (get_file_content (path_str dp ?rel) (read_of e))],
             file_count := file_count w + 1\<rparr>)"
          using assms Cons.prems ign body by (rule step_closed_body)
        then have "P (snd (process_entries dp pats mf cur es (w\<lparr>result := result w
               @ [FileHeader ?rel, FileBody ?rel (get_file_content (path_str dp ?rel) (read_of e))],
             file_count := file_count w + 1\<rparr>)))" by (rule Cons.IH)
        then show ?thesis using body ign by (simp add: Let_def)
      next
        case skipped
        have "P (w\<lparr>result := result w @ [SkippedFile ?rel]\<rparr>)"
          using assms Cons.prems ign skipped by (rule step_closed_skipped)
        then have "P (snd (process_entries dp pats mf cur es
              (w\<lparr>result := result w @ [SkippedFile ?rel]\<rparr>)))" by (rule Cons.IH)
        then show ?thesis using skipped ign by (simp add: Let_def)
      next
        case subdir
        have "P (w\<lparr>next_dirs := next_dirs w @ [(?rel, e)]\<rparr>)"
          using assms Cons.prems ign subdir by (rule step_closed_subdir)
        then have "P (snd (process_entries dp pats mf cur es
              (w\<lparr>next_dirs := next_dirs w @ [(?rel, e)]\<rparr>)))" by (rule Cons.IH)
        then show ?thesis using subdir ign by (simp add: Let_def)
      next
        case other
        have "P (snd (process_entries dp pats mf cur es w))" using Cons.prems by (rule Cons.IH)
        then show ?thesis using ign other by (simp add: Let_def)
      qed
    qed
  qed
qed

lemma process_dir_closed:
  assumes "step_closed dp pats mf (fst d) P" and "P w"
  shows "P (process_dir dp pats mf d w)"
proof -
  let ?w1 = "w\<lparr>result := result w @ [DirectoryHeader (fst d)]\<rparr>"
  from assms have w1: "P ?w1" by (rule step_closed_header)
  show ?thesis
  proof (cases "iterdir (snd d)")
    case (Inl m)
    from assms(1) w1 have "P (?w1\<lparr>result := result ?w1 @ [DirectoryError (fst d) m]\<rparr>)"
      by (rule step_closed_error)
    with Inl show ?thesis by (simp add: process_dir_def Let_def)
  next
    case (Inr entries)
    let ?es = "sort_key (\<lambda>x. (is_file x, name x)) entries"
    obtain x w2 where r: "process_entries dp pats mf (fst d) ?es ?w1 = (x, w2)"
      by (cases "process_entries dp pats mf (fst d) ?es ?w1")
    have "P (snd (process_entries dp pats mf (fst d) ?es ?w1))"
      using assms(1) w1 by (rule process_entries_closed)
    with r have w2: "P w2" by simp
    show ?thesis
    proof (cases x)
      case None
      with Inr r w2 show ?thesis by (simp add: process_dir_def Let_def)
    next
      case (Some m)
      from assms(1) w2 have "P (w2\<lparr>result := result w2 @ [DirectoryError (fst d) m]\<rparr>)"
        by (rule step_closed_error)
      with Inr r Some show ?thesis by (simp add: process_dir_def Let_def)
    qed
  qed
qed

lemma process_level_closed:
  assumes "\<forall>d\<in>set dirs. step_closed dp pats mf (fst d) P" and "P w"
  shows "P (process_level dp pats mf dirs w)"
  using assms
proof (induction dirs arbitrary: w)
  case Nil
  then show ?case by simp
next
  case (Cons d dirs)
  from Cons.prems have "step_closed dp pats mf (fst d) P" by simp
  then have "P (process_dir dp pats mf d w)"
    using Cons.prems(2) by (rule process_dir_closed)
  moreover from Cons.prems have "\<forall>d\<in>set dirs. step_closed dp pats mf (fst d) P" by simp
  ultimately have "P (process_level dp pats mf dirs (process_dir dp pats mf d w))"
    by (rule Cons.IH[rotated])
  then show ?case by simp
qed


lemma bfs_loop_stop:
  "\<not> (dirs \<noteq> [] \<and> depth < max_depth \<and> file_count w < mf)
   \<Longrightarrow> bfs_loop dp pats max_depth mf dirs depth w = w"
  by (subst bfs_loop.simps) auto

lemma bfs_loop_step:
  "dirs \<noteq> [] \<Longrightarrow> depth < max_depth \<Longrightarrow> file_count w < mf
   \<Longrightarrow> bfs_loop dp pats max_depth mf dirs depth w =
       bfs_loop dp pats max_depth mf
         (next_dirs (process_level dp pats mf dirs (w\<lparr>next_dirs := []\<rparr>))) (depth + 1)
         (process_level dp pats mf dirs (w\<lparr>next_dirs := []\<rparr>))"
  by (subst bfs_loop.simps) (simp add: Let_def)

lemma bfs_loop_closed:
  assumes "Q dirs depth" and "P w"
    and level: "\<And>dirs depth w. \<lbrakk>Q dirs depth; P w; dirs \<noteq> []; depth < max_depth; file_count w < mf\<rbrakk>
       \<Longrightarrow> P (process_level dp pats mf dirs (w\<lparr>next_dirs := []\<rparr>))
         \<and> Q (next_dirs (process_level dp pats mf dirs (w\<lparr>next_dirs := []\<rparr>))) (depth + 1)"
  shows "P (bfs_loop dp pats max_depth mf dirs depth w)"
  using assms
proof (induction dp pats max_depth mf dirs depth w rule: bfs_loop.induct)
  case (1 dp pats max_depth mf dirs depth w)
  show ?case
  proof (cases "dirs \<noteq> [] \<and> depth < max_depth \<and> file_count w < mf")
    case True
    let ?w' = "process_level dp pats mf dirs (w\<lparr>next_dirs := []\<rparr>)"
    from True 1(2,3) have "P ?w' \<and> Q (next_dirs ?w') (depth + 1)"
      by (intro 1(4)) simp_all
    then have "P (bfs_loop dp pats max_depth mf (next_dirs ?w') (depth + 1) ?w')"
      using 1(1)[OF True refl] 1(4) by blast
    with True show ?thesis by (simp add: bfs_loop_step)
  next
    case False
    then have "bfs_loop dp pats max_depth mf dirs depth w = w" by (rule bfs_loop_stop)
    with 1(3) show ?thesis by simp
  qed
qed


lemma depth_inv_closed:
  "length cur = n \<Longrightarrow> int n < max_depth \<Longrightarrow> step_closed dp pats mf cur (depth_inv max_depth n)"
  by (auto simp: step_closed_def depth_inv_def)

lemma count_inv_closed: "step_closed dp pats mf cur (count_inv mf)"
  by (auto simp: step_closed_def count_inv_def)

lemma clean_Nil: "clean pats []"
  by (simp add: clean_def)

lemma clean_snoc:
  "clean pats cur \<Longrightarrow> \<not> startswith n (py ''.'') \<Longrightarrow> \<not> matches_ignored pats (join (py ''/'') (cur @ [n]))
   \<Longrightarrow> clean pats (cur @ [n])"
  by (auto simp: clean_def prefix_snoc)

lemma should_ignore_False:
  "should_ignore pats rel e = Inr False
   \<Longrightarrow> \<not> startswith (name e) (py ''.'') \<and> \<not> matches_ignored pats (join (py ''/'') rel)"
  by (auto simp: should_ignore_def Let_def split: if_splits)

lemma clean_inv_closed:
  assumes "clean pats cur"
  shows "step_closed dp pats mf cur (clean_inv pats)"
proof -
  have "clean pats (cur @ [name e])" if "should_ignore pats (cur @ [name e]) e = Inr False" for e
    using assms should_ignore_False[OF that] by (simp add: clean_snoc)
  with assms show ?thesis by (auto simp: step_closed_def clean_inv_def)
qed


lemma bfs_loop_depth:
  assumes "\<forall>d\<in>set dirs. int (length (fst d)) = depth"
    and "\<forall>rel. DirectoryHeader rel \<in> set (result w) \<longrightarrow> int (length rel) < max_depth"
  shows "\<forall>rel. DirectoryHeader rel \<in> set (result (bfs_loop dp pats max_depth mf dirs depth w))
           \<longrightarrow> int (length rel) < max_depth"
proof (rule bfs_loop_closed[where Q = "\<lambda>dirs depth. \<forall>d\<in>set dirs. int (length (fst d)) = depth"
      and P = "\<lambda>w. \<forall>rel. DirectoryHeader rel \<in> set (result w) \<longrightarrow> int (length rel) < max_depth"])
  show "\<forall>d\<in>set dirs. int (length (fst d)) = depth" by fact
  show "\<forall>rel. DirectoryHeader rel \<in> set (result w) \<longrightarrow> int (length rel) < max_depth" by fact
next
  fix dirs :: "(str list \<times> entry) list" and depth :: int and w :: walk
  assume lv: "\<forall>d\<in>set dirs. int (length (fst d)) = depth"
    and hd: "\<forall>rel. DirectoryHeader rel \<in> set (result w) \<longrightarrow> int (length rel) < max_depth"
    and "dirs \<noteq> []" and lt: "depth < max_depth"
  let ?n = "nat depth"
  let ?w' = "process_level dp pats mf dirs (w\<lparr>next_dirs := []\<rparr>)"
  from lv \<open>dirs \<noteq> []\<close> have d0: "0 \<le> depth" by (cases dirs) auto
  have "\<forall>d\<in>set dirs. step_closed dp pats mf (fst d) (depth_inv max_depth ?n)"
    using lv lt d0 by (auto intro!: depth_inv_closed)
  moreover have "depth_inv max_depth ?n (w\<lparr>next_dirs := []\<rparr>)"
    using hd by (simp add: depth_inv_def)
  ultimately have "depth_inv max_depth ?n ?w'" by (rule process_level_closed)
  with d0 show "(\<forall>rel. DirectoryHeader rel \<in> set (result ?w') \<longrightarrow> int (length rel) < max_depth)
      \<and> (\<forall>d\<in>set (next_dirs ?w'). int (length (fst d)) = depth + 1)"
    by (auto simp: depth_inv_def)
qed

lemma bfs_loop_count:
  assumes "count_inv mf w"
  shows "count_inv mf (bfs_loop dp pats max_depth mf dirs depth w)"
proof (rule bfs_loop_closed[where Q = "\<lambda>dirs depth. True" and P = "count_inv mf"])
  show "count_inv mf w" by fact
next
  fix dirs :: "(str list \<times> entry) list" and w :: walk
  assume "count_inv mf w"
  then have "count_inv mf (w\<lparr>next_dirs := []\<rparr>)" by (simp add: count_inv_def)
  moreover have "\<forall>d\<in>set dirs. step_closed dp pats mf (fst d) (count_inv mf)"
    by (simp add: count_inv_closed)
  ultimately have "count_inv mf (process_level dp pats mf dirs (w\<lparr>next_dirs := []\<rparr>))"
    by (rule process_level_closed[rotated])
  then show "count_inv mf (process_level dp pats mf dirs (w\<lparr>next_dirs := []\<rparr>)) \<and> True" by simp
qed simp

lemma bfs_loop_clean:
  assumes "\<forall>d\<in>set dirs. clean pats (fst d)" and "clean_inv pats w"
  shows "clean_inv pats (bfs_loop dp pats max_depth mf dirs depth w)"
proof (rule bfs_loop_closed[where Q = "\<lambda>dirs depth. \<forall>d\<in>set dirs. clean pats (fst d)"
      and P = "clean_inv pats"])
  show "\<forall>d\<in>set dirs. clean pats (fst d)" by fact
  show "clean_inv pats w" by fact
next
  fix dirs :: "(str list \<times> entry) list" and w :: walk
  assume lv: "\<forall>d\<in>set dirs. clean pats (fst d)" and "clean_inv pats w"
  let ?w' = "process_level dp pats mf dirs (w\<lparr>next_dirs := []\<rparr>)"
  from \<open>clean_inv pats w\<close> have "clean_inv pats (w\<lparr>next_dirs := []\<rparr>)" by (simp add: clean_inv_def)
  moreover from lv have "\<forall>d\<in>set dirs. step_closed dp pats mf (fst d) (clean_inv pats)"
    by (simp add: clean_inv_closed)
  ultimately have "clean_inv pats ?w'" by (rule process_level_closed[rotated])
  then show "clean_inv pats ?w' \<and> (\<forall>d\<in>set (next_dirs ?w'). clean pats (fst d))"
    by (simp add: clean_inv_def)
qed



lemma matches_ignored_iff:
  "matches_ignored pats rel_path \<longleftrightarrow> (\<exists>pattern\<in>set pats. pattern_matches pattern rel_path)"
  by (induction pats) auto

lemma pattern_matches_iff:
  "pattern_matches pattern rel_path \<longleftrightarrow>
     (endswith pattern (py ''/'') \<and> startswith rel_path (butlast pattern))
     \<or> (startswith pattern (py ''*'') \<and> endswith rel_path (tl pattern))
     \<or> contains pattern rel_path"
  by (auto simp: pattern_matches_def)





lemmas aggregator_eval =
  directory_items_def sample_tree_def bfs_loop_step bfs_loop_stop process_dir_def
  should_ignore_def py_def startswith_def endswith_def contains_def pattern_matches_def Let_def
  path_suffix_def binary_suffixes_def get_file_content_def path_str_def sublist_Cons_right
  suffix_Cons


section \<open>Properties of the query client\<close>

lemma requests_of_simps [simp]:
  "requests_of [] = []"
  "requests_of (Request rq # tr) = rq # requests_of tr"
  "requests_of (Log c m # tr) = requests_of tr"
  "requests_of (LogException m e # tr) = requests_of tr"
  "requests_of (LogElapsed m # tr) = requests_of tr"
  "requests_of (Print s # tr) = requests_of tr"
  "requests_of (PrintValue v s # tr) = requests_of tr"
  by (simp_all add: requests_of_def map_filter_simps)

lemma requests_of_append [simp]: "requests_of (xs @ ys) = requests_of xs @ requests_of ys"
  by (simp add: requests_of_def map_filter_def)

lemma set_requests_of: "rq \<in> set (requests_of tr) \<longleftrightarrow> Request rq \<in> set tr"
  by (induction tr) (auto simp: requests_of_def map_filter_def split: event.splits)

lemma version_step_ok: "fst (version_step rp) = version_reachable rp"
  by (auto simp: version_step_def version_reachable_def split: reply.splits option.splits)

lemma version_step_pass: "fst (version_step rp) \<Longrightarrow> snd (version_step rp) = []"
  by (auto simp: version_step_def split: reply.splits option.splits if_splits)

lemma reports_exception:
  "reports c (LogException m e) \<longleftrightarrow>
     (c = VersionCheck \<and> m = py ''Error connecting to Ollama'')
     \<or> (c = TagsCheck \<and> m = py ''Error checking available models'')
     \<or> (c = TestPromptCheck \<and> m = py ''Error testing model'')"
  by (cases c) auto

lemma reports_log:
  "reports c (Log col m) \<longleftrightarrow>
     col = Some RED \<and>
     ((c = VersionCheck \<and> m = py ''Ollama server is not responding correctly'')
      \<or> (c = TagsCheck
          \<and> (m = py ''Required model '' @ quoted DEFAULT_MODEL @ py '' is not available''
             \<or> m = py ''Failed to get model list from Ollama''))
      \<or> (c = TestPromptCheck \<and> prefix (py ''Model test failed with status code: '') m))"
  by (cases c) auto

lemmas reports_eval = reports_exception reports_log py_def quoted_def DEFAULT_MODEL_def

lemma version_step_fail:
  "\<not> fst (version_step rp) \<Longrightarrow>
     (\<exists>ev\<in>set (snd (version_step rp)). reports VersionCheck ev)
     \<and> (\<forall>ev\<in>set (snd (version_step rp)). \<forall>c. reports c ev \<longrightarrow> c = VersionCheck)
     \<and> quiet (snd (version_step rp))"
  by (auto simp: version_step_def quiet_def reports_eval split: reply.splits option.splits if_splits)

lemma tags_step_ok: "fst (tags_step rp) = model_present rp"
  by (auto simp: tags_step_def model_present_def split: reply.splits option.splits sum.splits)

lemma tags_step_pass: "fst (tags_step rp) \<Longrightarrow> snd (tags_step rp) = []"
  by (auto simp: tags_step_def split: reply.splits option.splits sum.splits if_splits)

lemma tags_step_fail:
  "\<not> fst (tags_step rp) \<Longrightarrow>
     (\<exists>ev\<in>set (snd (tags_step rp)). reports TagsCheck ev)
     \<and> (\<forall>ev\<in>set (snd (tags_step rp)). \<forall>c. reports c ev \<longrightarrow> c = TagsCheck)
     \<and> quiet (snd (tags_step rp))"
  by (auto simp: tags_step_def quiet_def reports_eval
      split: reply.splits option.splits sum.splits if_splits)

lemma test_step_ok: "fst (test_step rp) = test_prompt_succeeds rp"
  by (auto simp: test_step_def test_prompt_succeeds_def split: reply.splits option.splits sum.splits)

lemma test_step_pass: "fst (test_step rp) \<Longrightarrow> snd (test_step rp) = []"
  by (auto simp: test_step_def split: reply.splits option.splits sum.splits if_splits)

lemma test_step_fail:
  "\<not> fst (test_step rp) \<Longrightarrow>
     (\<exists>ev\<in>set (snd (test_step rp)). reports TestPromptCheck ev)
     \<and> (\<forall>ev\<in>set (snd (test_step rp)). \<forall>c. reports c ev \<longrightarrow> c = TestPromptCheck)
     \<and> quiet (snd (test_step rp))"
  by (auto simp: test_step_def quiet_def reports_eval
      split: reply.splits option.splits sum.splits if_splits)


lemma check_passes:
  assumes "failing_check srv hist = None"
  shows "check_ollama_status srv hist =
     (True, [Log None (py ''Performing detailed Ollama status check...''), Request GetVersion,
             Request GetTags, Request test_request,
             Log (Some GREEN) (py ''Ollama status: Ollama is fully operational'')])"
proof -
  from assms have ok: "fst (version_step (srv hist GetVersion))"
    "fst (tags_step (srv (hist @ [GetVersion]) GetTags))"
    "fst (test_step (srv (hist @ [GetVersion, GetTags]) test_request))"
    by (simp_all add: failing_check_def version_step_ok tags_step_ok test_step_ok split: if_splits)
  then show ?thesis
    by (simp add: check_ollama_status_def Let_def version_step_pass tags_step_pass test_step_pass)
qed

lemma check_fails:
  assumes "failing_check srv hist = Some c"
  shows "\<not> fst (check_ollama_status srv hist) \<and> only_reports c (snd (check_ollama_status srv hist))"
proof -
  let ?s1 = "version_step (srv hist GetVersion)"
  let ?s2 = "tags_step (srv (hist @ [GetVersion]) GetTags)"
  let ?s3 = "test_step (srv (hist @ [GetVersion, GetTags]) test_request)"
  consider (v) "c = VersionCheck" "\<not> fst ?s1"
    | (t) "c = TagsCheck" "fst ?s1" "\<not> fst ?s2"
    | (g) "c = TestPromptCheck" "fst ?s1" "fst ?s2" "\<not> fst ?s3"
    using assms
    by (auto simp: failing_check_def version_step_ok tags_step_ok test_step_ok split: if_splits)
  then show ?thesis
  proof cases
    case v
    from version_step_fail[OF v(2)] v show ?thesis
      by (auto simp: check_ollama_status_def Let_def only_reports_def quiet_def set_requests_of reports_eval)
  next
    case t
    from tags_step_fail[OF t(3)] t version_step_pass[OF t(2)] show ?thesis
      by (auto simp: check_ollama_status_def Let_def only_reports_def quiet_def set_requests_of reports_eval)
  next
    case g
    from test_step_fail[OF g(4)] g version_step_pass[OF g(2)] tags_step_pass[OF g(3)] show ?thesis
      by (auto simp: check_ollama_status_def Let_def only_reports_def quiet_def set_requests_of reports_eval)
  qed
qed

lemma user_request_not_preflight:
  "user_request prompt stream ctx \<notin> {GetVersion, GetTags, test_request}"
  by (simp add: user_request_def test_request_def Let_def)

lemma healthy_passes: "failing_check (healthy_server rp) hist = None"
  by (simp add: failing_check_def healthy_server_def version_reachable_def model_present_def
      test_prompt_succeeds_def ok_response_def model_names_def dict_get_def model_name_def
      test_request_def py_def DEFAULT_MODEL_def)

lemma send_query_healthy_500:
  "send_query_to_ollama (healthy_server error_500) no_tokenizer [] (py ''abc'') False (Some 4096) =
     [Log None (py ''Prompt size: ~0 tokens (approximate)''),
      Log None (py ''Performing detailed Ollama status check...''),
      Request GetVersion, Request GetTags, Request test_request,
      Log (Some GREEN) (py ''Ollama status: Ollama is fully operational''),
      Log None (py ''Waiting for response (this might take a while for long prompts)...''),
      Request (user_request (py ''abc'') False (Some 4096)),
      Log (Some RED) (py ''Error: Received status code 500''),
      Print (py ''model runner crashed''),
      Log None (py ''Processing complete!'')]"
  by (simp add: send_query_to_ollama_def Let_def check_passes[OF healthy_passes] healthy_server_def
      user_request_def error_500_def collecting_branch_def status_error_def processing_complete_def
      count_tokens_def no_tokenizer_def str_of_int_def digits.simps py_def)


section \<open>Claims about the context sizer\<close>

text \<open>
  C1. The claim: for every estimated token count the context size is a power of two, never
  below 4096 and never above 128000. The first two parts hold for every token count
  (\<open>context_size_power_of_two\<close>, \<open>context_size_floor\<close>). The third does not: the
  rounding happens after the clamp to \<^const>\<open>MAX_CONTEXT_SIZE\<close>, and 128000 is not a power of
  two, so every clamped value above 65536 is rounded up to 131072. At a token count of
  127000 the code asks for 131072 tokens, more than the constant it documents as the
  maximum context size for the model.
\<close>

theorem context_size_exceeds_maximum:
  "context_size 127000 = 131072 \<and> MAX_CONTEXT_SIZE < context_size 127000"
  by (simp add: context_size_eval)

text \<open>
  C2. For every token count a tokenizer can return (a length, so not negative), the code's
  \<open>2 ** (x - 1).bit_length()\<close> formula is the specification's "minimum of estimate plus
  buffer and the maximum, rounded up to the next power of two, with a floor of 4096"; and
  an estimate of 5000 gives 8192.
\<close>

theorem context_size_rounds_up:
  "(0 \<le> t \<longrightarrow> context_size t = context_size_spec t) \<and> context_size 5000 = 8192"
proof
  show "0 \<le> t \<longrightarrow> context_size t = context_size_spec t"
  proof
    assume t: "0 \<le> t"
    let ?d = "min MAX_CONTEXT_SIZE (t + TOKEN_BUFFER)"
    from t have d: "1 \<le> ?d" by (simp add: MAX_CONTEXT_SIZE_def TOKEN_BUFFER_def)
    then have "1 \<le> nat ?d" by linarith
    then have "next_power_of_two (nat ?d) = 2 ^ bit_length_nat (nat ?d - 1)"
      by (rule next_power_of_two_bit_length)
    moreover from d have "nat ?d - 1 = nat \<bar>?d - 1\<bar>" by linarith
    ultimately show "context_size t = context_size_spec t"
      by (simp add: context_size_def context_size_spec_def bit_length_def Let_def)
  qed
  show "context_size 5000 = 8192" by (simp add: context_size_eval)
qed

theorem context_size_rounds_up_witness:
  "(0::int) \<le> 5000 \<and> context_size 5000 = context_size_spec 5000
   \<and> context_size_spec 5000 = 8192"
  using context_size_rounds_up [of 5000] by simp

text \<open>
  C3. The context sizer is monotonic on token counts: for \<open>0 \<le> a \<le> b\<close> the context size
  for \<open>a\<close> is at most the context size for \<open>b\<close>. A token count is the length of a token
  list, or a quarter of the length of the text, so it is never negative.
\<close>

theorem context_size_monotonic:
  assumes "0 \<le> a" and "a \<le> b"
  shows "context_size a \<le> context_size b"
proof -
  let ?da = "min MAX_CONTEXT_SIZE (a + TOKEN_BUFFER)"
  let ?db = "min MAX_CONTEXT_SIZE (b + TOKEN_BUFFER)"
  from assms have "1 \<le> ?da" "?da \<le> ?db"
    by (simp_all add: MAX_CONTEXT_SIZE_def TOKEN_BUFFER_def)
  then have "nat \<bar>?da - 1\<bar> \<le> nat \<bar>?db - 1\<bar>" by linarith
  then have "bit_length (?da - 1) \<le> bit_length (?db - 1)"
    unfolding bit_length_def by (rule bit_length_nat_mono)
  then have "(2::int) ^ bit_length (?da - 1) \<le> 2 ^ bit_length (?db - 1)"
    by (simp add: power_increasing)
  then have "max (4096::int) (2 ^ bit_length (?da - 1)) \<le> max 4096 (2 ^ bit_length (?db - 1))"
    by (rule max.mono[OF order_refl])
  then show ?thesis by (simp add: context_size_def Let_def)
qed

theorem context_size_monotonic_witness:
  "(0::int) \<le> 5000 \<and> (5000::int) \<le> 70000 \<and> context_size 5000 \<le> context_size 70000"
  using context_size_monotonic [of 5000 70000] by simp


section \<open>Claims about the token estimators\<close>

text \<open>
  C4. For every text the token estimators return a non-negative integer, and the estimate
  does not decrease when a space and further words are appended: this holds for
  \<open>estimate_qwen_tokens\<close> (whatever the appended characters \<open>w\<close> are and whatever the
  Unicode character classes are); \<open>count_tokens\<close> is never negative, with any tokenizer;
  and its \<open>len(text) // 4\<close> fallback, which is \<open>count_tokens\<close> with a tokenizer that
  raises, does not decrease either.
\<close>

theorem token_estimators_nonneg_monotone:
  "0 \<le> estimate_qwen_tokens U t
   \<and> estimate_qwen_tokens U t \<le> estimate_qwen_tokens U (t @ py '' '' @ w)
   \<and> 0 \<le> count_tokens encode t
   \<and> int (length t) div 4 \<le> int (length (t @ py '' '' @ w)) div 4
   \<and> count_tokens no_tokenizer t \<le> count_tokens no_tokenizer (t @ py '' '' @ w)"
proof (intro conjI)
  show "0 \<le> estimate_qwen_tokens U t" by (simp add: estimate_qwen_tokens_halves)
  have "length (split U t) \<le> length (split U (t @ py '' '' @ w))" by (rule split_append_mono)
  then show "estimate_qwen_tokens U t \<le> estimate_qwen_tokens U (t @ py '' '' @ w)"
    unfolding estimate_qwen_tokens_halves by (intro iffD2[OF of_nat_le_iff] div_le_mono) simp
  show "0 \<le> count_tokens encode t"
    by (simp add: count_tokens_def pos_imp_zdiv_nonneg_iff split: option.split)
  show le: "int (length t) div 4 \<le> int (length (t @ py '' '' @ w)) div 4"
    by (intro zdiv_mono1) simp_all
  then show "count_tokens no_tokenizer t \<le> count_tokens no_tokenizer (t @ py '' '' @ w)"
    by (simp only: count_tokens_def no_tokenizer_def option.case)
qed

theorem token_estimators_nonneg_monotone_witness:
  "estimate_qwen_tokens ascii_classes (py ''line 12.'')
     \<le> estimate_qwen_tokens ascii_classes (py ''line 12. of 30'')
   \<and> count_tokens no_tokenizer (py ''line 12.'')
     \<le> count_tokens no_tokenizer (py ''line 12. of 30'')"
  using token_estimators_nonneg_monotone
    [of ascii_classes "py ''line 12.''" "py ''of 30''" no_tokenizer]
  by (simp add: py_def)


section \<open>Claims about the content aggregator\<close>

text \<open>
  The string \<open>get_directory_content\<close> returns is the rendering of \<^const>\<open>directory_items\<close>,
  joined by blank lines; the claims are stated on the items, where a file body and the
  path it came from can be told apart from the other lines.
\<close>

text \<open>
  C5. For every directory target, every ignore list and all limits \<open>max_depth \<ge> 0\<close> and
  \<open>max_files \<ge> 0\<close>: every directory the traversal visits (it emits the header of each
  directory it visits, before reading it) lies at a depth below \<open>max_depth\<close>, the depth
  being the length of its path relative to the traversal root; and the output holds at
  most \<open>max_files\<close> file bodies.
\<close>

theorem directory_traversal_bounded:
  assumes "0 \<le> max_depth" and "0 \<le> max_files"
  shows "(\<forall>rel. DirectoryHeader rel \<in> set (directory_items dp root_dir pats max_depth max_files)
            \<longrightarrow> int (length rel) < max_depth)
       \<and> int (length (filter is_file_body (directory_items dp root_dir pats max_depth max_files)))
            \<le> max_files"
proof -
  let ?init = "\<lparr>result = [], file_count = 0, next_dirs = []\<rparr>"
  let ?final = "bfs_loop dp pats max_depth max_files [([], root_dir)] 0 ?init"
  have "\<forall>rel. DirectoryHeader rel \<in> set (result ?final) \<longrightarrow> int (length rel) < max_depth"
    by (rule bfs_loop_depth) simp_all
  moreover have "count_inv max_files ?init" using assms(2) by (simp add: count_inv_def)
  then have "count_inv max_files ?final" by (rule bfs_loop_count)
  ultimately show ?thesis by (auto simp: directory_items_def Let_def count_inv_def)
qed

theorem directory_traversal_bounded_witness:
  "(0::int) \<le> 1
   \<and> int (length (filter is_file_body (directory_items (py ''.proj'') sample_tree [] 1 1))) \<le> 1
   \<and> DirectoryHeader [py ''src''] \<notin> set (directory_items (py ''.proj'') sample_tree [] 1 1)
   \<and> directory_items (py ''.proj'') sample_tree [] 1 1 =
       [DirectoryHeader [], FileHeader [py ''b.py''], FileBody [py ''b.py''] (py ''0123456789''),
        FileLimitWarning 1]"
  using directory_traversal_bounded [of 1 1 "py ''.proj''" sample_tree "[]"]
  by (simp add: aggregator_eval)

text \<open>
  C6. An entry whose name begins with a dot, or whose path relative to the traversal root
  matches a loaded ignore pattern (a pattern ending in a slash that, without the slash, is
  a prefix of the path; a pattern beginning with an asterisk whose rest is a suffix of the
  path; or a pattern that occurs in the path), contributes nothing to the output: no
  output line is about the entry, at relative path \<open>q\<close>, or about anything beneath it.
\<close>

theorem ignored_entries_never_aggregated:
  assumes "q \<noteq> []"
    and "startswith (last q) (py ''.'')
         \<or> (\<exists>pattern\<in>set pats.
               (endswith pattern (py ''/'') \<and> startswith (join (py ''/'') q) (butlast pattern))
               \<or> (startswith pattern (py ''*'') \<and> endswith (join (py ''/'') q) (tl pattern))
               \<or> contains pattern (join (py ''/'') q))"
  shows "\<forall>it\<in>set (directory_items dp root_dir pats max_depth max_files).
           \<not> prefix q (item_path it)"
proof
  fix it
  assume it: "it \<in> set (directory_items dp root_dir pats max_depth max_files)"
  let ?init = "\<lparr>result = [], file_count = 0, next_dirs = []\<rparr>"
  let ?final = "bfs_loop dp pats max_depth max_files [([], root_dir)] 0 ?init"
  have "clean_inv pats ?final"
    by (rule bfs_loop_clean) (simp_all add: clean_Nil clean_inv_def)
  with it have "clean pats (item_path it)"
    by (auto simp: directory_items_def Let_def clean_inv_def clean_Nil split: if_splits)
  moreover from assms(2)
  have "startswith (last q) (py ''.'') \<or> matches_ignored pats (join (py ''/'') q)"
    by (simp add: matches_ignored_iff pattern_matches_iff)
  ultimately show "\<not> prefix q (item_path it)" using assms(1) by (auto simp: clean_def)
qed

theorem ignored_entries_never_aggregated_witness:
  "FileBody [py ''.env''] (py ''SECRET'')
     \<notin> set (directory_items (py ''.proj'') sample_tree [py ''build/''] 3 50)
   \<and> DirectoryHeader [py ''build'']
     \<notin> set (directory_items (py ''.proj'') sample_tree [py ''build/''] 3 50)
   \<and> FileBody [py ''build'', py ''out.txt''] (py ''obj'')
     \<notin> set (directory_items (py ''.proj'') sample_tree [py ''build/''] 3 50)"
proof -
  let ?items = "directory_items (py ''.proj'') sample_tree [py ''build/''] 3 50"
  have hidden: "\<forall>it\<in>set ?items. \<not> prefix [py ''.env''] (item_path it)"
    using ignored_entries_never_aggregated
            [of "[py ''.env'']" "[py ''build/'']" "py ''.proj''" sample_tree 3 50]
    by (simp add: py_def startswith_def)
  have ignored: "\<forall>it\<in>set ?items. \<not> prefix [py ''build''] (item_path it)"
    using ignored_entries_never_aggregated
            [of "[py ''build'']" "[py ''build/'']" "py ''.proj''" sample_tree 3 50]
    by (simp add: py_def startswith_def endswith_def suffix_Cons)
  from hidden have "FileBody [py ''.env''] (py ''SECRET'') \<notin> set ?items" by fastforce
  moreover from ignored have "DirectoryHeader [py ''build''] \<notin> set ?items" by fastforce
  moreover from ignored have "FileBody [py ''build'', py ''out.txt''] (py ''obj'') \<notin> set ?items"
    by fastforce
  ultimately show ?thesis by simp
qed






section \<open>Claims about \<open>main\<close> and the query client\<close>

text \<open>
  C7. If the target path does not exist, \<open>main\<close> returns exit code 1 and its trace holds
  no HTTP request; and if the target exists but is neither a file nor a directory,
  \<open>main\<close> returns 1 as well (again without a request).
\<close>

theorem main_rejects_bad_target:
  "(env_target E = None \<longrightarrow> fst (main E A) = 1 \<and> requests_of (snd (main E A)) = [])
   \<and> (\<forall>node. env_target E = Some node \<and> \<not> is_file node \<and> \<not> is_dir node
          \<longrightarrow> fst (main E A) = 1 \<and> requests_of (snd (main E A)) = [])"
  by (simp add: main_def Let_def)

theorem main_rejects_bad_target_witness:
  "fst (main (sample_env None) sample_args) = 1
   \<and> requests_of (snd (main (sample_env None) sample_args)) = []
   \<and> fst (main (sample_env (Some (Other (py ''sock'')))) sample_args) = 1
   \<and> requests_of (snd (main (sample_env (Some (Other (py ''sock'')))) sample_args)) = []"
  using main_rejects_bad_target [of "sample_env None" sample_args]
        main_rejects_bad_target [of "sample_env (Some (Other (py ''sock'')))" sample_args]
  by (simp add: sample_env_def)

text \<open>
  C8. \<open>send_query_to_ollama\<close> issues the generate request for the user's prompt exactly
  when all three pre-flight checks pass: the version endpoint is reachable, the target
  model is in the tags list, and the trivial test prompt succeeds. If a check fails, the
  trace reports that check and no other, ends with the "not ready" line, and does not
  hold the user's request.
\<close>

theorem preflight_gates_query:
  "(Request (user_request prompt stream ctx)
      \<in> set (send_query_to_ollama srv encode hist prompt stream ctx)
    \<longleftrightarrow> failing_check srv hist = None)
   \<and> (\<forall>c. failing_check srv hist = Some c \<longrightarrow>
         (\<exists>ev\<in>set (send_query_to_ollama srv encode hist prompt stream ctx). reports c ev)
         \<and> (\<forall>ev\<in>set (send_query_to_ollama srv encode hist prompt stream ctx).
               \<forall>c'. reports c' ev \<longrightarrow> c' = c)
         \<and> last (send_query_to_ollama srv encode hist prompt stream ctx) = not_ready
         \<and> Request (user_request prompt stream ctx)
             \<notin> set (send_query_to_ollama srv encode hist prompt stream ctx))"
proof (cases "failing_check srv hist")
  case None
  from check_passes[OF None] show ?thesis
    using None by (simp add: send_query_to_ollama_def Let_def)
next
  case (Some c)
  let ?tr = "snd (check_ollama_status srv hist)"
  from check_fails[OF Some] have nok: "\<not> fst (check_ollama_status srv hist)"
    and rep: "only_reports c ?tr" by simp_all
  have eq: "send_query_to_ollama srv encode hist prompt stream ctx =
      Log None (py ''Prompt size: ~'' @ str_of_int (count_tokens encode prompt)
                @ py '' tokens (approximate)'') # ?tr @ [not_ready]"
    using nok by (simp add: send_query_to_ollama_def Let_def not_ready_def)
  from rep have nr: "Request (user_request prompt stream ctx) \<notin> set ?tr"
    using user_request_not_preflight[of prompt stream ctx]
    by (auto simp: only_reports_def set_requests_of[symmetric])
  from rep have ex: "\<exists>ev\<in>set ?tr. reports c ev"
    and un: "\<forall>ev\<in>set ?tr. \<forall>c'. reports c' ev \<longrightarrow> c' = c"
    by (simp_all add: only_reports_def)
  have nrr: "\<not> reports c' not_ready" for c'
    by (simp add: not_ready_def reports_eval)
  show ?thesis
    unfolding eq using Some nr ex un nrr by (auto simp: not_ready_def reports_log)
qed

theorem preflight_gates_query_witness:
  "failing_check dead_server [] = Some VersionCheck
   \<and> Request (user_request (py ''abc'') True None)
        \<notin> set (send_query_to_ollama dead_server no_tokenizer [] (py ''abc'') True None)
   \<and> last (send_query_to_ollama dead_server no_tokenizer [] (py ''abc'') True None) = not_ready
   \<and> failing_check (healthy_server error_500) [] = None
   \<and> Request (user_request (py ''abc'') True None)
        \<in> set (send_query_to_ollama (healthy_server error_500) no_tokenizer [] (py ''abc'') True None)"
proof -
  have dead: "failing_check dead_server [] = Some VersionCheck"
    by (simp add: failing_check_def dead_server_def version_reachable_def)
  have healthy: "failing_check (healthy_server error_500) [] = None"
    by (rule healthy_passes)
  from dead preflight_gates_query [of "py ''abc''" True None dead_server no_tokenizer "[]"]
  have "Request (user_request (py ''abc'') True None)
          \<notin> set (send_query_to_ollama dead_server no_tokenizer [] (py ''abc'') True None)
        \<and> last (send_query_to_ollama dead_server no_tokenizer [] (py ''abc'') True None)
            = not_ready"
    by simp
  moreover
  from healthy
    preflight_gates_query [of "py ''abc''" True None "healthy_server error_500" no_tokenizer "[]"]
  have "Request (user_request (py ''abc'') True None)
          \<in> set (send_query_to_ollama (healthy_server error_500) no_tokenizer [] (py ''abc'')
                  True None)"
    by simp
  ultimately show ?thesis using dead healthy by simp
qed


text \<open>
  C9. The claim: a non-streaming query that is answered with a non-200 status is reported
  with the status code, and no response text is printed. The error branch does print:
  after the log line it runs \<open>print(response.text)\<close>, so the text of the HTTP response
  reaches standard output. With a server that passes the checks and answers the query
  with status 500 and the body "model runner crashed", that body is printed.
\<close>

theorem non_200_prints_response_text:
  "Print (py ''model runner crashed'')
     \<in> set (send_query_to_ollama (healthy_server error_500) no_tokenizer [] (py ''abc'') False
              (Some 4096))"
  by (simp add: send_query_healthy_500)

text \<open>
  C9, amended. For a non-streaming query whose pre-flight checks pass and whose request is
  answered with a status other than 200, \<open>send_query_to_ollama\<close> logs the error with the
  status code, prints the raw body of that response, and prints nothing else: no
  "=== Ollama Response ===" banner, and no \<open>response\<close> field of a parsed answer.
\<close>

theorem non_200_reports_status_and_body:
  assumes "failing_check srv hist = None"
    and "srv (hist @ [GetVersion, GetTags, test_request]) (user_request prompt False ctx)
           = Responded r"
    and "status_code r \<noteq> 200"
  shows "send_query_to_ollama srv encode hist prompt False ctx =
           [Log None (py ''Prompt size: ~'' @ str_of_int (count_tokens encode prompt)
                      @ py '' tokens (approximate)'')]
           @ snd (check_ollama_status srv hist)
           @ [Log None
                (py ''Waiting for response (this might take a while for long prompts)...''),
              Request (user_request prompt False ctx),
              Log (Some RED) (py ''Error: Received status code '' @ str_of_int (status_code r)),
              Print (body_text r),
              Log None (py ''Processing complete!'')]
         \<and> filter is_print (send_query_to_ollama srv encode hist prompt False ctx)
             = [Print (body_text r)]"
  using assms
  by (simp add: send_query_to_ollama_def Let_def check_passes[OF assms(1)] collecting_branch_def
      status_error_def processing_complete_def)

theorem non_200_reports_status_and_body_witness:
  "failing_check (healthy_server error_500) [] = None
   \<and> filter is_print
        (send_query_to_ollama (healthy_server error_500) no_tokenizer [] (py ''abc'') False
           (Some 4096))
      = [Print (py ''model runner crashed'')]
   \<and> Log (Some RED) (py ''Error: Received status code 500'')
        \<in> set (send_query_to_ollama (healthy_server error_500) no_tokenizer [] (py ''abc'') False
             (Some 4096))"
proof -
  let ?r = "\<lparr>status_code = 500, body_text = py ''model runner crashed'', body_json = None,
             body_lines = [], lines_error = None\<rparr>"
  have h: "failing_check (healthy_server error_500) [] = None" by (rule healthy_passes)
  have rp: "healthy_server error_500 ([] @ [GetVersion, GetTags, test_request])
              (user_request (py ''abc'') False (Some 4096)) = Responded ?r"
    by (simp add: healthy_server_def user_request_def error_500_def)
  have st: "status_code ?r \<noteq> 200" by simp
  from non_200_reports_status_and_body[OF h rp st, of no_tokenizer] h show ?thesis
    by (simp add: str_of_int_def digits.simps py_def check_passes[OF h])
qed

end
